theory Spec2Isabelle
  imports Main "HOL-Library.Sublist" "HOL-Library.AList"
begin

section \<open>Strings: the JavaScript string operations used by generator.mjs\<close>

text \<open>
  JavaScript strings are modelled as \<open>string\<close> (lists of 8-bit characters, read as code
  units below 256). \<open>indexOf\<close> and \<open>lastIndexOf\<close> return \<open>-1\<close> when the pattern does
  not occur; the model returns \<open>None\<close> there and \<open>Some i\<close> for the index \<open>i\<close>.
\<close>

fun indexOf :: "string \<Rightarrow> string \<Rightarrow> nat option" where
  "indexOf pat [] = (if pat = [] then Some 0 else None)"
| "indexOf pat (c # cs) =
     (if prefix pat (c # cs) then Some 0 else map_option Suc (indexOf pat cs))"

fun lastIndexOf :: "string \<Rightarrow> string \<Rightarrow> nat option" where
  "lastIndexOf pat [] = (if pat = [] then Some 0 else None)"
| "lastIndexOf pat (c # cs) =
     (case lastIndexOf pat cs of
        Some i \<Rightarrow> Some (Suc i)
      | None \<Rightarrow> if prefix pat (c # cs) then Some 0 else None)"

text \<open>
  \<open>String.prototype.substring(a, b)\<close>: both indices are clamped to the length, and the
  two are swapped when the first is the larger.
\<close>

definition substring :: "string \<Rightarrow> nat \<Rightarrow> nat \<Rightarrow> string" where
  "substring s a b =
     (let a' = min a (length s); b' = min b (length s);
          lo = min a' b'; hi = max a' b'
      in take (hi - lo) (drop lo s))"

text \<open>
  \<open>String.prototype.trim\<close> strips white space and line terminators from both ends; of
  the code units below 256 these are TAB, LF, VT, FF, CR, SPACE and NBSP.
\<close>

definition isJsSpace :: "char \<Rightarrow> bool" where
  "isJsSpace c = (of_char c \<in> {9, 10, 11, 12, 13, 32, 160 :: nat})"

definition trim :: "string \<Rightarrow> string" where
  "trim s = rev (dropWhile isJsSpace (rev (dropWhile isJsSpace s)))"

section \<open>Errors\<close>

text \<open>
  Every \<open>throw\<close> of the source and every rejection of a library call is a value of
  \<open>js_error\<close>. The errors the source constructs itself have their own constructors
  (their messages are in \<open>message\<close>, without the values that two of them interpolate).
  \<open>TypeError m\<close> is a \<open>TypeError\<close> that the language throws (a property read on \<open>null\<close>
  or \<open>undefined\<close>, a call of something that is not a function, a conversion of an
  object that has no primitive value), with the message \<open>m\<close> as V8 words it. \<open>LibError m\<close>
  is an \<open>Error\<close> with message \<open>m\<close> thrown by the OpenAI client, by xml2js or by the file
  system.
\<close>

datatype js_error =
    EmptyResponse
  | NoXmlStructure
  | UnexpectedStructure
  | InvalidImageData
  | InvalidOrEmptyStore
  | NoSlidesProduced
  | TypeError string
  | LibError string

fun message :: "js_error \<Rightarrow> string" where
  "message EmptyResponse = ''Received empty response from GPT-4o.''"
| "message NoXmlStructure = ''No XML structure found in GPT response.''"
| "message UnexpectedStructure = ''Unexpected XML structure after parsing.''"
| "message InvalidImageData = ''Invalid image data received (missing b64_json).''"
| "message InvalidOrEmptyStore = ''slides.json is invalid/empty.''"
| "message NoSlidesProduced = ''Slide generation failed or produced no slides.''"
| "message (TypeError m) = m"
| "message (LibError m) = m"

section \<open>Extraction of the XML fragment (generateSlidesFromResearch, lines 114-128)\<close>

definition extractXml :: "string \<Rightarrow> js_error + string" where
  "extractXml xmlContent =
     (let xmlStartIndex = indexOf ''<slides>'' xmlContent;
          xmlEndIndex = lastIndexOf ''</slides>'' xmlContent
      in case (xmlStartIndex, xmlEndIndex) of
           (Some i, Some j) \<Rightarrow>
             Inr (substring xmlContent i (j + length ''</slides>''))
         | _ \<Rightarrow>
             (case (indexOf ''<'' xmlContent, lastIndexOf ''>'' xmlContent) of
                (Some firstTag, Some lastTag) \<Rightarrow>
                  Inr (substring xmlContent firstTag (lastTag + 1))
              | _ \<Rightarrow> Inl NoXmlStructure))"

section \<open>Ampersand repair (generateSlidesFromResearch, lines 135-136)\<close>

text \<open>
  The regular expression is
  \<^verbatim>\<open>/&(?!amp;|lt;|gt;|quot;|apos;|#[0-9]+;|#x[0-9a-fA-F]+;)/g\<close>, replaced by
  \<^verbatim>\<open>&amp;\<close>. \<open>entityAhead cs\<close> is the lookahead, evaluated on the text \<open>cs\<close> that
  follows an ampersand: one of the five names, or \<open>#\<close>, digits and \<open>;\<close>, or \<open>#x\<close>, hex
  digits and \<open>;\<close>. The character classes are greedy, and \<open>;\<close> is in neither class, so
  \<open>[0-9]+;\<close> matches exactly when the longest run of digits is non-empty and is
  followed by \<open>;\<close>.
\<close>

definition isDigit :: "char \<Rightarrow> bool" where
  "isDigit c = (c \<in> set ''0123456789'')"

definition isHexDigit :: "char \<Rightarrow> bool" where
  "isHexDigit c = (c \<in> set ''0123456789abcdefABCDEF'')"

definition charRef :: "(char \<Rightarrow> bool) \<Rightarrow> string \<Rightarrow> bool" where
  "charRef cls cs =
     (takeWhile cls cs \<noteq> [] \<and>
      (case dropWhile cls cs of [] \<Rightarrow> False | d # _ \<Rightarrow> d = CHR '';''))"

definition entityAhead :: "string \<Rightarrow> bool" where
  "entityAhead cs =
     (prefix ''amp;'' cs \<or> prefix ''lt;'' cs \<or> prefix ''gt;'' cs \<or>
      prefix ''quot;'' cs \<or> prefix ''apos;'' cs \<or>
      (case cs of
         [] \<Rightarrow> False
       | h # r \<Rightarrow>
           h = CHR ''#'' \<and>
           (charRef isDigit r \<or>
            (case r of [] \<Rightarrow> False | x # hs \<Rightarrow> x = CHR ''x'' \<and> charRef isHexDigit hs))))"

text \<open>
  A global replace scans the input from left to right; every match is the single
  character \<open>&\<close>, and the lookahead reads the input, not the output.
\<close>

fun fixAmpersands :: "string \<Rightarrow> string" where
  "fixAmpersands [] = []"
| "fixAmpersands (c # cs) =
     (if c = CHR ''&'' \<and> \<not> entityAhead cs then ''&amp;'' @ fixAmpersands cs
      else c # fixAmpersands cs)"


section \<open>JavaScript values\<close>

text \<open>
  The values that \<open>JSON.parse\<close> and xml2js produce and that the source handles without
  knowing their type. A number is given by its rendering under
  \<open>Number.prototype.toString\<close>, which determines it up to the sign of zero: \<open>42\<close>,
  \<open>-1.5\<close>, \<open>1e+21\<close>. An object is the list of its own properties in insertion order; its
  prototype is \<open>Object.prototype\<close>, as for every object that \<open>JSON.parse\<close> or an object
  literal makes, and no value is a function.
\<close>

datatype js_value =
    JUndefined
  | JNull
  | JBool bool
  | JNum string
  | JStr string
  | JArr "js_value list"
  | JObj "(string \<times> js_value) list"

type_synonym js_object = "(string \<times> js_value) list"

text \<open>Truthiness, as \<open>!!v\<close>, \<open>v && w\<close> and \<open>v || w\<close> test it.\<close>

fun truthy :: "js_value \<Rightarrow> bool" where
  "truthy JUndefined = False"
| "truthy JNull = False"
| "truthy (JBool b) = b"
| "truthy (JNum r) = (r \<noteq> ''0'' \<and> r \<noteq> ''NaN'')"
| "truthy (JStr s) = (s \<noteq> [])"
| "truthy (JArr xs) = True"
| "truthy (JObj kvs) = True"

definition nullish :: "js_value \<Rightarrow> bool" where
  "nullish v = (v = JNull \<or> v = JUndefined)"

definition field :: "js_object \<Rightarrow> string \<Rightarrow> js_value" where
  "field obj k = (case map_of obj k of Some v \<Rightarrow> v | None \<Rightarrow> JUndefined)"

text \<open>
  \<open>readProp v k\<close> is \<open>v.k\<close> for a value \<open>v\<close> that is neither \<open>null\<close> nor \<open>undefined\<close>, for
  the property names the source reads this way (\<open>title\<close>, \<open>text\<close>, \<open>imagedescription\<close>,
  \<open>slideNumber\<close>, \<open>isValid\<close>, \<open>slides\<close>, \<open>slide\<close>): primitives and arrays have none of
  them. \<open>getProp\<close> adds the \<open>TypeError\<close> of a read on \<open>null\<close> or \<open>undefined\<close>.
\<close>

fun readProp :: "js_value \<Rightarrow> string \<Rightarrow> js_value" where
  "readProp (JObj kvs) k = field kvs k"
| "readProp v k = JUndefined"

definition quoted :: "string \<Rightarrow> string" where
  "quoted s = CHR 0x27 # s @ [CHR 0x27]"

definition cannotRead :: "js_value \<Rightarrow> string \<Rightarrow> js_error" where
  "cannotRead v k =
     TypeError (''Cannot read properties of '' @ (if v = JNull then ''null'' else ''undefined'') @
                '' (reading '' @ quoted k @ '')'')"

definition getProp :: "js_value \<Rightarrow> string \<Rightarrow> js_error + js_value" where
  "getProp v k = (if nullish v then Inl (cannotRead v k) else Inr (readProp v k))"

definition bindE :: "'e + 'a \<Rightarrow> ('a \<Rightarrow> 'e + 'b) \<Rightarrow> 'e + 'b" where
  "bindE m f = (case m of Inl e \<Rightarrow> Inl e | Inr x \<Rightarrow> f x)"

text \<open>
  Decimal rendering of an array index or a position, and its inverse. (A JavaScript array
  has fewer than \<open>2\<^sup>3\<^sup>2\<close> elements, and \<open>Number.prototype.toString\<close> prints every
  digit of an integer of that size.)
\<close>

definition digitChar :: "nat \<Rightarrow> char" where
  "digitChar d = ''0123456789'' ! d"

fun showNat :: "nat \<Rightarrow> string" where
  "showNat n = (if n < 10 then [digitChar n] else showNat (n div 10) @ [digitChar (n mod 10)])"

declare showNat.simps [simp del]

definition digitVal :: "char \<Rightarrow> nat" where
  "digitVal c = of_char c - 48"

definition readNat :: "string \<Rightarrow> nat" where
  "readNat s = foldl (\<lambda>acc c. 10 * acc + digitVal c) 0 s"

fun joinWith :: "string \<Rightarrow> string list \<Rightarrow> string" where
  "joinWith sep [] = []"
| "joinWith sep [x] = x"
| "joinWith sep (x # y # ys) = x @ sep @ joinWith sep (y # ys)"

text \<open>
  Conversion to a string, as a template literal does it. An object is asked for its
  \<open>toString\<close> and then for its \<open>valueOf\<close>: an own \<open>toString\<close> property hides the
  inherited method and cannot be called, the inherited \<open>valueOf\<close> returns the object
  itself, and then the conversion throws; without an own \<open>toString\<close> the inherited one
  gives \<open>[object Object]\<close>. An array joins the conversions of its elements, made from
  left to right, with \<open>null\<close> and \<open>undefined\<close> elements as empty strings.
\<close>

fun jsToString :: "js_value \<Rightarrow> js_error + string"
  and joinElements :: "js_value list \<Rightarrow> js_error + string" where
  "jsToString JUndefined = Inr ''undefined''"
| "jsToString JNull = Inr ''null''"
| "jsToString (JBool b) = Inr (if b then ''true'' else ''false'')"
| "jsToString (JNum r) = Inr r"
| "jsToString (JStr s) = Inr s"
| "jsToString (JArr xs) = joinElements xs"
| "jsToString (JObj kvs) =
     (if map_of kvs ''toString'' \<noteq> None
      then Inl (TypeError ''Cannot convert object to primitive value'')
      else Inr ''[object Object]'')"
| "joinElements [] = Inr []"
| "joinElements (x # xs) =
     (case (if x = JNull \<or> x = JUndefined then Inr [] else jsToString x) of
        Inl e \<Rightarrow> Inl e
      | Inr a \<Rightarrow>
          if xs = [] then Inr a
          else (case joinElements xs of Inl e \<Rightarrow> Inl e | Inr b \<Rightarrow> Inr (a @ '','' @ b)))"

text \<open>
  The own enumerable properties that an object spread \<open>{ ...v }\<close> copies: those of an
  object, the indexed elements of an array, the indexed characters of a string, and
  nothing for any other value.
\<close>

fun ownProps :: "js_value \<Rightarrow> js_object" where
  "ownProps (JObj kvs) = kvs"
| "ownProps (JArr xs) = zip (map showNat [0..<length xs]) xs"
| "ownProps (JStr s) = zip (map showNat [0..<length s]) (map (\<lambda>c. JStr [c]) s)"
| "ownProps v = []"

fun mapIndexed :: "(nat \<Rightarrow> 'a \<Rightarrow> 'e + 'b) \<Rightarrow> nat \<Rightarrow> 'a list \<Rightarrow> 'e + 'b list" where
  "mapIndexed f i [] = Inr []"
| "mapIndexed f i (x # xs) =
     bindE (f i x) (\<lambda>y. bindE (mapIndexed f (Suc i) xs) (\<lambda>ys. Inr (y # ys)))"

section \<open>Numeric value of a string, and the test \<open>v > 150\<close>\<close>

text \<open>
  \<open>StringToNumber\<close>: white space is stripped from both ends; the empty string is 0; a
  literal is \<open>0x\<close>, \<open>0o\<close> or \<open>0b\<close> with digits of that base, or an optional sign
  followed by \<open>Infinity\<close> or by a decimal literal (digits, an optional point with digits
  on at least one side, an optional exponent); anything else is \<open>NaN\<close>. The value of a
  finite literal is kept exactly, as a sign, an integer \<open>m \<ge> 0\<close> and a decimal exponent
  \<open>e\<close>, for \<open>m * 10\<^sup>e\<close>.
\<close>

datatype num_value = NaN | Infinite bool | Finite bool int int

definition baseDigit :: "char \<Rightarrow> int" where
  "baseDigit c =
     (if isDigit c then of_char c - 48
      else if c \<in> set ''abcdef'' then of_char c - 87
      else of_char c - 55)"

definition readBase :: "int \<Rightarrow> string \<Rightarrow> int" where
  "readBase b s = foldl (\<lambda>acc c. b * acc + baseDigit c) 0 s"

definition parseExponent :: "string \<Rightarrow> int option" where
  "parseExponent s =
     (case s of
        [] \<Rightarrow> Some 0
      | c # t \<Rightarrow>
          if c = CHR ''e'' \<or> c = CHR ''E'' then
            (let neg = (case t of [] \<Rightarrow> False | d # r \<Rightarrow> d = CHR ''-'');
                 ds = (case t of [] \<Rightarrow> []
                       | d # r \<Rightarrow> if d = CHR ''+'' \<or> d = CHR ''-'' then r else t)
             in if ds \<noteq> [] \<and> list_all isDigit ds
                then Some (if neg then - readBase 10 ds else readBase 10 ds)
                else None)
          else None)"

definition parseDecimal :: "string \<Rightarrow> (int \<times> int) option" where
  "parseDecimal s =
     (let ip = takeWhile isDigit s;
          r1 = dropWhile isDigit s;
          fp = (case r1 of [] \<Rightarrow> []
                | c # t \<Rightarrow> if c = CHR ''.'' then takeWhile isDigit t else []);
          r2 = (case r1 of [] \<Rightarrow> []
                | c # t \<Rightarrow> if c = CHR ''.'' then dropWhile isDigit t else r1)
      in if ip = [] \<and> fp = [] then None
         else (case parseExponent r2 of
                 None \<Rightarrow> None
               | Some e \<Rightarrow> Some (readBase 10 (ip @ fp), e - int (length fp))))"

definition parseNonDecimal :: "string \<Rightarrow> int option option" where
  "parseNonDecimal t =
     (let ds = drop 2 t in
      if prefix ''0x'' t \<or> prefix ''0X'' t then
        Some (if ds \<noteq> [] \<and> list_all isHexDigit ds then Some (readBase 16 ds) else None)
      else if prefix ''0o'' t \<or> prefix ''0O'' t then
        Some (if ds \<noteq> [] \<and> list_all (\<lambda>c. c \<in> set ''01234567'') ds
              then Some (readBase 8 ds) else None)
      else if prefix ''0b'' t \<or> prefix ''0B'' t then
        Some (if ds \<noteq> [] \<and> list_all (\<lambda>c. c \<in> set ''01'') ds
              then Some (readBase 2 ds) else None)
      else None)"

definition stringToNumber :: "string \<Rightarrow> num_value" where
  "stringToNumber s =
     (let t = trim s in
      if t = [] then Finite False 0 0
      else (case parseNonDecimal t of
              Some r \<Rightarrow> (case r of Some n \<Rightarrow> Finite False n 0 | None \<Rightarrow> NaN)
            | None \<Rightarrow>
                (let neg = (hd t = CHR ''-'');
                     u = (if hd t = CHR ''+'' \<or> hd t = CHR ''-'' then tl t else t)
                 in if u = ''Infinity'' then Infinite neg
                    else (case parseDecimal u of
                            None \<Rightarrow> NaN
                          | Some (m, e) \<Rightarrow> Finite neg m e))))"

text \<open>
  Whether a number value, rounded to the nearest double with ties to even, is greater
  than 150. The double after 150 is \<open>150 + 2\<^sup>-\<^sup>4\<^sup>5\<close> and the mantissa of 150 is even, so
  that is the case exactly when the value is greater than \<open>150 + 2\<^sup>-\<^sup>4\<^sup>6\<close>.
\<close>

definition above150 :: "num_value \<Rightarrow> bool" where
  "above150 v =
     (case v of
        NaN \<Rightarrow> False
      | Infinite neg \<Rightarrow> \<not> neg
      | Finite neg m e \<Rightarrow>
          \<not> neg \<and>
          (if 0 \<le> e then m * 10 ^ nat e * 2 ^ 46 > 150 * 2 ^ 46 + 1
           else m * 2 ^ 46 > (150 * 2 ^ 46 + 1) * 10 ^ nat (- e)))"

text \<open>
  \<open>v > 150\<close> for any value: \<open>undefined\<close> is \<open>NaN\<close>, \<open>null\<close> and \<open>false\<close> are 0, \<open>true\<close> is
  1, a number is read back from its rendering, and an array or an object is converted
  to a string first, which can throw.
\<close>

definition exceeds150 :: "js_value \<Rightarrow> js_error + bool" where
  "exceeds150 v =
     (case v of
        JUndefined \<Rightarrow> Inr False
      | JNull \<Rightarrow> Inr False
      | JBool b \<Rightarrow> Inr False
      | JNum r \<Rightarrow> Inr (above150 (stringToNumber r))
      | JStr s \<Rightarrow> Inr (above150 (stringToNumber s))
      | _ \<Rightarrow> bindE (jsToString v) (\<lambda>s. Inr (above150 (stringToNumber s))))"

section \<open>Paths\<close>

text \<open>
  \<open>path.join\<close> on a POSIX system: the non-empty arguments are joined with \<open>/\<close> and the
  result is normalised. Empty and \<open>.\<close> segments are dropped; a \<open>..\<close> segment removes the
  segment before it, is dropped at the root of an absolute path, and is kept at the
  start of a relative one.
\<close>

fun splitOn :: "char \<Rightarrow> string \<Rightarrow> string list" where
  "splitOn c [] = [[]]"
| "splitOn c (x # xs) =
     (if x = c then [] # splitOn c xs
      else (case splitOn c xs of [] \<Rightarrow> [[x]] | s # ss \<Rightarrow> (x # s) # ss))"

definition normStep :: "bool \<Rightarrow> string list \<Rightarrow> string \<Rightarrow> string list" where
  "normStep allowAboveRoot res seg =
     (if seg = [] \<or> seg = ''.'' then res
      else if seg = ''..'' then
        (if res \<noteq> [] \<and> last res \<noteq> ''..'' then butlast res
         else if allowAboveRoot then res @ [''..'']
         else res)
      else res @ [seg])"

definition normalize :: "string \<Rightarrow> string" where
  "normalize p =
     (if p = [] then ''.''
      else
        (let isAbsolute = (hd p = CHR ''/'');
             trailingSeparator = (last p = CHR ''/'');
             segs = foldl (normStep (\<not> isAbsolute)) [] (splitOn CHR ''/'' p)
         in if segs = [] then
              (if isAbsolute then ''/'' else if trailingSeparator then ''./'' else ''.'')
            else (if isAbsolute then ''/'' else []) @ joinWith ''/'' segs @
                 (if trailingSeparator then ''/'' else [])))"

definition pathJoin :: "string list \<Rightarrow> string" where
  "pathJoin args =
     (let joined = joinWith ''/'' (filter (\<lambda>a. a \<noteq> []) args)
      in if joined = [] then ''.'' else normalize joined)"

section \<open>Slide records (generateSlidesFromResearch, lines 146-162; main, lines 226-229)\<close>

text \<open>
  \<open>!!(slide.title && slide.text && slide.imagedescription)\<close>: the three reads are made
  from left to right and stop at the first falsy value.
\<close>

definition validityOf :: "js_value \<Rightarrow> js_error + bool" where
  "validityOf slide =
     bindE (getProp slide ''title'') (\<lambda>title.
       if \<not> truthy title then Inr False
       else bindE (getProp slide ''text'') (\<lambda>text.
         if \<not> truthy text then Inr False
         else bindE (getProp slide ''imagedescription'') (\<lambda>imagedescription.
           Inr (truthy imagedescription))))"

text \<open>\<open>{ ...slide, slideNumber: index + 1, isValid }\<close>\<close>

definition freshRecord :: "nat \<Rightarrow> js_value \<Rightarrow> js_error + js_object" where
  "freshRecord index slide =
     bindE (validityOf slide) (\<lambda>isValid.
       Inr (AList.update ''isValid'' (JBool isValid)
             (AList.update ''slideNumber'' (JNum (showNat (index + 1))) (ownProps slide))))"

text \<open>
  Lines 146-162: the structure check on the result of xml2js, the wrapping of a single
  slide into an array, and the map over the slides.
\<close>

definition slideElements :: "js_value \<Rightarrow> js_error + js_value list" where
  "slideElements parsedResult =
     (if \<not> truthy parsedResult then Inl UnexpectedStructure
      else let slides = readProp parsedResult ''slides'' in
        if \<not> truthy slides then Inl UnexpectedStructure
        else let slide = readProp slides ''slide'' in
          if \<not> truthy slide then Inl UnexpectedStructure
          else Inr (case slide of JArr xs \<Rightarrow> xs | v \<Rightarrow> [v]))"

definition slidesFromParsed :: "js_value \<Rightarrow> js_error + js_object list" where
  "slidesFromParsed parsedResult =
     bindE (slideElements parsedResult) (\<lambda>slidesArray. mapIndexed freshRecord 0 slidesArray)"

text \<open>
  \<open>{ ...s, slideNumber: s.slideNumber || i + 1,
      isValid: !!(s.title && s.text && s.imagedescription) }\<close>
\<close>

definition loadedRecord :: "nat \<Rightarrow> js_value \<Rightarrow> js_error + js_object" where
  "loadedRecord i s =
     bindE (getProp s ''slideNumber'') (\<lambda>n.
       bindE (validityOf s) (\<lambda>isValid.
         Inr (AList.update ''isValid'' (JBool isValid)
               (AList.update ''slideNumber'' (if truthy n then n else JNum (showNat (i + 1)))
                 (ownProps s)))))"

text \<open>
  Lines 226-229. The argument is the outcome of \<open>JSON.parse(await readFile(...))\<close>:
  \<open>Inl\<close> when the read or the parse throws.
\<close>

definition loadSlides :: "js_error + js_value \<Rightarrow> js_error + js_object list" where
  "loadSlides stored =
     bindE stored (\<lambda>slides.
       case slides of
         JArr xs \<Rightarrow> if xs = [] then Inl InvalidOrEmptyStore else mapIndexed loadedRecord 0 xs
       | _ \<Rightarrow> Inl InvalidOrEmptyStore)"

section \<open>Text generation (generateSlidesFromResearch)\<close>

text \<open>
  The world outside the program. The text model, xml2js and the file system are not part
  of the source; each is a field that gives the outcome of the call, \<open>Inl\<close> or \<open>Some\<close> of
  an error when it throws. \<open>scriptDir\<close> is \<open>__dirname\<close>, the absolute path of the
  directory of the script. \<open>chatCompletion research\<close> is
  \<open>response.choices[0]?.message?.content\<close> for the prompt built from the research text
  (\<open>None\<close> when the content is absent). \<open>imageApi k j\<close> is \<open>img.data?.[0]?.b64_json\<close> in
  attempt \<open>j\<close> of the \<open>k\<close>-th dispatched image task, and \<open>imageWrite k j\<close> the outcome of
  the \<open>writeFile\<close> of that attempt.
\<close>

datatype api_result = Rejects js_error | Responds "string option"

record world =
  scriptDir :: string
  slidesJsonExists :: bool
  readSlidesJson :: "js_error + js_value"
  researchExists :: bool
  readResearch :: "js_error + string"
  chatCompletion :: "string \<Rightarrow> js_error + string option"
  parseXml :: "string \<Rightarrow> js_error + js_value"
  writeSlidesJson :: "js_object list \<Rightarrow> js_error option"
  imagesDirExists :: bool
  mkdirImages :: "js_error option"
  imageApi :: "nat \<Rightarrow> nat \<Rightarrow> api_result"
  imageWrite :: "nat \<Rightarrow> nat \<Rightarrow> js_error option"

datatype main_event =
    ChatRequest string
  | ParseXml string
  | WriteSlidesJson "js_object list"
  | MakeImagesDir

text \<open>
  The function returns the slides or the error it rethrows, with the calls it made.
  Console output is not modelled.
\<close>

definition generateSlidesFromResearch ::
    "world \<Rightarrow> string \<Rightarrow> (js_error + js_object list) \<times> main_event list" where
  "generateSlidesFromResearch w researchText =
     (case chatCompletion w researchText of
        Inl e \<Rightarrow> (Inl e, [ChatRequest researchText])
      | Inr content \<Rightarrow>
          (case map_option trim content of
             None \<Rightarrow> (Inl EmptyResponse, [ChatRequest researchText])
           | Some xmlContent \<Rightarrow>
               if xmlContent = [] then (Inl EmptyResponse, [ChatRequest researchText])
               else
                 (case extractXml xmlContent of
                    Inl e \<Rightarrow> (Inl e, [ChatRequest researchText])
                  | Inr extracted \<Rightarrow>
                      (let cleaned = fixAmpersands extracted in
                       case bindE (parseXml w cleaned) slidesFromParsed of
                         Inl e \<Rightarrow> (Inl e, [ChatRequest researchText, ParseXml cleaned])
                       | Inr slidesData \<Rightarrow>
                           (case writeSlidesJson w slidesData of
                              Some e \<Rightarrow> Inl e
                            | None \<Rightarrow> Inr slidesData,
                            [ChatRequest researchText, ParseXml cleaned,
                             WriteSlidesJson slidesData])))))"

section \<open>Image generation (generateImageWithRetry)\<close>

definition IMAGES_DIR :: string where
  "IMAGES_DIR = ''images''"

definition IMAGE_GENERATION_MODEL :: string where
  "IMAGE_GENERATION_MODEL = ''gpt-image-1''"

definition IMAGE_SIZE :: string where
  "IMAGE_SIZE = ''1536x1024''"

definition MAX_IMAGE_RETRIES :: nat where
  "MAX_IMAGE_RETRIES = 3"

definition INITIAL_IMAGE_RETRY_DELAY_MS :: nat where
  "INITIAL_IMAGE_RETRY_DELAY_MS = 1000"

text \<open>
  What one task does, in order: a request to the image model (model, prompt, count and
  size), a \<open>writeFile\<close> of the decoded payload to a path, a wait of so many milliseconds.
\<close>

datatype img_event =
    ImageRequest string js_value nat string
  | ImageWrite string string
  | Wait nat

text \<open>\<open>error.message || error\<close>: the message, or the error itself when the message is empty.\<close>

datatype error_report = Message string | ErrorValue js_error

definition errorReport :: "js_error \<Rightarrow> error_report" where
  "errorReport e = (if message e \<noteq> [] then Message (message e) else ErrorValue e)"

text \<open>
  The value the function returns: \<open>{ success: true, path }\<close>, \<open>{ success: false, error }\<close>,
  or \<open>undefined\<close> when the loop is left by its condition.
\<close>

datatype image_outcome = Success string | Failure error_report | NoOutcome

text \<open>
  Line 178, \<open>path.join(__dirname, IMAGES_DIR, `slide_${slideNumber}_image.png`)\<close>: the
  conversion of the slide number to a string can throw.
\<close>

definition imagePath :: "string \<Rightarrow> js_value \<Rightarrow> js_error + string" where
  "imagePath dir slideNumber =
     bindE (jsToString slideNumber) (\<lambda>n.
       Inr (pathJoin [dir, IMAGES_DIR, ''slide_'' @ n @ ''_image.png'']))"

text \<open>
  Line 186,
  \<open>imagePrompt.length > 150 ? imagePrompt.substring(0, 147) + "..." : imagePrompt\<close>:
  the read of \<open>length\<close> throws on \<open>null\<close> and \<open>undefined\<close>; a string has its length, an
  array the number of its elements, an object its own \<open>length\<close> property if it has one,
  and a number or a boolean has none; only a string has a \<open>substring\<close> method to call.
\<close>

definition notAFunction :: js_error where
  "notAFunction = TypeError ''imagePrompt.substring is not a function''"

definition displayPrompt :: "js_value \<Rightarrow> js_error + js_value" where
  "displayPrompt imagePrompt =
     (case imagePrompt of
        JUndefined \<Rightarrow> Inl (cannotRead imagePrompt ''length'')
      | JNull \<Rightarrow> Inl (cannotRead imagePrompt ''length'')
      | JStr s \<Rightarrow>
          Inr (JStr (if length s > 150 then substring s 0 147 @ ''...'' else s))
      | JArr xs \<Rightarrow> if length xs > 150 then Inl notAFunction else Inr imagePrompt
      | JObj kvs \<Rightarrow>
          bindE (exceeds150 (field kvs ''length'')) (\<lambda>longer.
            if longer then Inl notAFunction else Inr imagePrompt)
      | _ \<Rightarrow> Inr imagePrompt)"

text \<open>
  Lines 186-187, which run inside the \<open>try\<close> block before the request: the prompt to
  display is computed and converted to a string for the log line. The result is the
  error thrown, if any; the line logged is not modelled.
\<close>

definition logAttempt :: "js_value \<Rightarrow> js_error option" where
  "logAttempt imagePrompt =
     (case bindE (displayPrompt imagePrompt) jsToString of
        Inl e \<Rightarrow> Some e
      | Inr line \<Rightarrow> None)"

text \<open>
  The body of the \<open>try\<close> block in attempt \<open>j\<close>: the outcome is the path written, or the
  error thrown, with the events of the attempt.
\<close>

definition attempt ::
    "(nat \<Rightarrow> api_result) \<Rightarrow> (nat \<Rightarrow> js_error option) \<Rightarrow> js_value \<Rightarrow> string \<Rightarrow> nat \<Rightarrow>
     (js_error + string) \<times> img_event list" where
  "attempt api wr imagePrompt path j =
     (case logAttempt imagePrompt of
        Some e \<Rightarrow> (Inl e, [])
      | None \<Rightarrow>
          (let request = ImageRequest IMAGE_GENERATION_MODEL imagePrompt 1 IMAGE_SIZE in
           case api j of
             Rejects e \<Rightarrow> (Inl e, [request])
           | Responds b64Json \<Rightarrow>
               (case b64Json of
                  None \<Rightarrow> (Inl InvalidImageData, [request])
                | Some d \<Rightarrow>
                    if d = [] then (Inl InvalidImageData, [request])
                    else (case wr j of
                            Some e \<Rightarrow> (Inl e, [request, ImageWrite path d])
                          | None \<Rightarrow> (Inr path, [request, ImageWrite path d])))))"

text \<open>
  The \<open>while\<close> loop, entered with \<open>retries\<close> failed attempts so far. The \<open>catch\<close> block
  increments \<open>retries\<close> first, so its tests and its delay read \<open>retries + 1\<close>.
\<close>

function retryLoop ::
    "(nat \<Rightarrow> api_result) \<Rightarrow> (nat \<Rightarrow> js_error option) \<Rightarrow> js_value \<Rightarrow> string \<Rightarrow> nat \<Rightarrow>
     image_outcome \<times> img_event list" where
  "retryLoop api wr imagePrompt path retries =
     (if retries \<le> MAX_IMAGE_RETRIES then
        (case attempt api wr imagePrompt path retries of
           (Inr p, evs) \<Rightarrow> (Success p, evs)
         | (Inl error, evs) \<Rightarrow>
             if retries + 1 > MAX_IMAGE_RETRIES then (Failure (errorReport error), evs)
             else
               (let waitTime = INITIAL_IMAGE_RETRY_DELAY_MS * 2 ^ (retries + 1 - 1);
                    rest = retryLoop api wr imagePrompt path (retries + 1)
                in (fst rest, evs @ [Wait waitTime] @ snd rest)))
      else (NoOutcome, []))"
  by pat_completeness auto
termination
  by (relation "measure (\<lambda>(api, wr, imagePrompt, path, retries). Suc MAX_IMAGE_RETRIES - retries)")
    auto

declare retryLoop.simps [simp del]

text \<open>
  The path is built before the loop and outside every \<open>try\<close>: when that throws, the
  promise that the function returns rejects (\<open>Inl\<close>) and nothing else is done.
\<close>

definition generateImageWithRetry ::
    "string \<Rightarrow> (nat \<Rightarrow> api_result) \<Rightarrow> (nat \<Rightarrow> js_error option) \<Rightarrow>
     js_value \<Rightarrow> js_value \<Rightarrow> js_value \<Rightarrow> js_error + image_outcome \<times> img_event list" where
  "generateImageWithRetry dir api wr imageDescription slideText slideNumber =
     bindE (imagePath dir slideNumber) (\<lambda>path.
       Inr (retryLoop api wr imageDescription path 0))"

section \<open>The run (main)\<close>

text \<open>
  Lines 223-247: the slides, or \<open>None\<close> where the source calls \<open>process.exit(1)\<close>.
\<close>

definition obtainSlides :: "world \<Rightarrow> js_object list option \<times> main_event list" where
  "obtainSlides w =
     (if slidesJsonExists w then
        (case loadSlides (readSlidesJson w) of
           Inl e \<Rightarrow> (None, [])
         | Inr slides \<Rightarrow> (Some slides, []))
      else if \<not> researchExists w then (None, [])
      else
        (case readResearch w of
           Inl e \<Rightarrow> (None, [])
         | Inr researchText \<Rightarrow>
             (case generateSlidesFromResearch w researchText of
                (Inl e, evs) \<Rightarrow> (None, evs)
              | (Inr slides, evs) \<Rightarrow>
                  if slides = [] then (None, evs) else (Some slides, evs))))"

datatype summary_line = TotalValid nat | Generated nat | FailedCount nat

text \<open>
  What became of a dispatched task: it settled with an outcome, after its events; or its
  promise rejected; or it was cut short. A promise that rejects does so while the tasks
  are being dispatched, \<open>Promise.all\<close> then rejects, \<open>main\<close> rejects and the handler on
  line 282 calls \<open>process.exit(1)\<close>, all before a timer or a response can let any other
  task go on: those tasks were started and never settle, and whatever request they had
  begun, none of them has written a file, since a write follows a response.
\<close>

datatype task = Settled image_outcome "img_event list" | Rejected js_error | CutShort

record run =
  exitCode :: nat
  events :: "main_event list"
  tasks :: "task list"
  summary :: "summary_line list"

definition settled :: "js_error + image_outcome \<times> img_event list \<Rightarrow> task" where
  "settled r = (case r of Inl e \<Rightarrow> Rejected e | Inr (outcome, evs) \<Rightarrow> Settled outcome evs)"

definition abandoned :: "js_error + image_outcome \<times> img_event list \<Rightarrow> task" where
  "abandoned r = (case r of Inl e \<Rightarrow> Rejected e | Inr x \<Rightarrow> CutShort)"

text \<open>\<open>r?.success\<close>\<close>

definition succeeded :: "task \<Rightarrow> bool" where
  "succeeded t = (case t of Settled (Success p) evs \<Rightarrow> True | _ \<Rightarrow> False)"

definition isValid :: "js_object \<Rightarrow> bool" where
  "isValid s = truthy (field s ''isValid'')"

text \<open>
  Lines 249-279. The tasks run concurrently and share nothing, so each task is given with
  its own events; \<open>Promise.all\<close> keeps the order of the valid slides.
\<close>

definition processSlides :: "world \<Rightarrow> main_event list \<Rightarrow> js_object list \<Rightarrow> run" where
  "processSlides w evs slides =
     (let validSlides = filter isValid slides in
      if validSlides = [] then \<lparr>exitCode = 0, events = evs, tasks = [], summary = []\<rparr>
      else
        (case (if imagesDirExists w then None else mkdirImages w) of
           Some e \<Rightarrow>
             \<lparr>exitCode = 1, events = evs @ [MakeImagesDir], tasks = [], summary = []\<rparr>
         | None \<Rightarrow>
             (let imagePromises =
                    map (\<lambda>(k, slide).
                          generateImageWithRetry (scriptDir w) (imageApi w k) (imageWrite w k)
                            (field slide ''imagedescription'') (field slide ''text'')
                            (field slide ''slideNumber''))
                      (enumerate 0 validSlides);
                  evs' = evs @ (if imagesDirExists w then [] else [MakeImagesDir])
              in if list_ex isl imagePromises then
                   \<lparr>exitCode = 1, events = evs', tasks = map abandoned imagePromises,
                    summary = []\<rparr>
                 else
                   (let results = map settled imagePromises;
                        successfulImages = length (filter succeeded results)
                    in \<lparr>exitCode = 0, events = evs', tasks = results,
                        summary =
                          [TotalValid (length validSlides), Generated successfulImages] @
                          (if length validSlides - successfulImages > 0
                           then [FailedCount (length validSlides - successfulImages)]
                           else [])\<rparr>))))"

definition main :: "world \<Rightarrow> run" where
  "main w =
     (case obtainSlides w of
        (None, evs) \<Rightarrow> \<lparr>exitCode = 1, events = evs, tasks = [], summary = []\<rparr>
      | (Some slides, evs) \<Rightarrow> processSlides w evs slides)"

section \<open>Notions used to state the properties\<close>

definition occursAt :: "string \<Rightarrow> string \<Rightarrow> nat \<Rightarrow> bool" where
  "occursAt pat s i = (i \<le> length s \<and> prefix pat (drop i s))"

definition firstOccurrence :: "string \<Rightarrow> string \<Rightarrow> nat \<Rightarrow> bool" where
  "firstOccurrence pat s i = (occursAt pat s i \<and> (\<forall>k<i. \<not> occursAt pat s k))"

definition lastOccurrence :: "string \<Rightarrow> string \<Rightarrow> nat \<Rightarrow> bool" where
  "lastOccurrence pat s i =
     (occursAt pat s i \<and> (\<forall>k\<le>length s. i < k \<longrightarrow> \<not> occursAt pat s k))"

definition contains :: "string \<Rightarrow> string \<Rightarrow> bool" where
  "contains pat s = (\<exists>i\<le>length s. occursAt pat s i)"


text \<open>
  An image call fails when the client rejects or when the response has no payload
  (\<open>b64_json\<close> absent or empty); \<open>callError\<close> is the error the attempt then throws.
\<close>

definition callFails :: "api_result \<Rightarrow> bool" where
  "callFails r = (case r of Rejects e \<Rightarrow> True | Responds b \<Rightarrow> b = None \<or> b = Some [])"

definition callError :: "api_result \<Rightarrow> js_error" where
  "callError r = (case r of Rejects e \<Rightarrow> e | Responds b \<Rightarrow> InvalidImageData)"

definition imageRequest :: "js_value \<Rightarrow> img_event" where
  "imageRequest imagePrompt = ImageRequest IMAGE_GENERATION_MODEL imagePrompt 1 IMAGE_SIZE"

text \<open>
  The files that a task writes, read off its events; a task that rejects or is cut short
  has written none.
\<close>

fun writtenPaths :: "img_event list \<Rightarrow> string list" where
  "writtenPaths [] = []"
| "writtenPaths (ImageWrite p d # evs) = p # writtenPaths evs"
| "writtenPaths (e # evs) = writtenPaths evs"

definition taskWrites :: "task \<Rightarrow> string list" where
  "taskWrites t = (case t of Settled outcome evs \<Rightarrow> writtenPaths evs | _ \<Rightarrow> [])"

text \<open>
  The three reads of the validity check, for a value that is neither \<open>null\<close> nor
  \<open>undefined\<close>.
\<close>

definition requiredTruthy :: "js_value \<Rightarrow> bool" where
  "requiredTruthy s =
     (truthy (readProp s ''title'') \<and> truthy (readProp s ''text'') \<and>
      truthy (readProp s ''imagedescription''))"

text \<open>
  A record keeps the title, text and image description of the element it was made from.
\<close>

definition keepsContent :: "js_object \<Rightarrow> js_value \<Rightarrow> bool" where
  "keepsContent r s =
     (field r ''title'' = readProp s ''title'' \<and> field r ''text'' = readProp s ''text'' \<and>
      field r ''imagedescription'' = readProp s ''imagedescription'')"

definition isObject :: "js_value \<Rightarrow> bool" where
  "isObject v = (case v of JObj kvs \<Rightarrow> True | _ \<Rightarrow> False)"

text \<open>
  A world in which neither file exists and every external call fails; the examples
  below update it.
\<close>

definition bareWorld :: world where
  "bareWorld =
     \<lparr>scriptDir = ''/srv/slidegen'',
      slidesJsonExists = False, readSlidesJson = Inl (LibError ''ENOENT''),
      researchExists = False, readResearch = Inl (LibError ''ENOENT''),
      chatCompletion = (\<lambda>research. Inl (LibError ''Connection error.'')),
      parseXml = (\<lambda>xml. Inl (LibError ''Unclosed root tag'')),
      writeSlidesJson = (\<lambda>slides. Some (LibError ''EACCES'')),
      imagesDirExists = False, mkdirImages = Some (LibError ''EACCES''),
      imageApi = (\<lambda>k j. Rejects (LibError ''Connection error.'')),
      imageWrite = (\<lambda>k j. Some (LibError ''EACCES''))\<rparr>"

text \<open>The task that main dispatches for the \<open>k\<close>-th valid slide.\<close>

definition taskOf :: "world \<Rightarrow> nat \<Rightarrow> js_object \<Rightarrow> js_error + image_outcome \<times> img_event list" where
  "taskOf w k slide =
     generateImageWithRetry (scriptDir w) (imageApi w k) (imageWrite w k)
       (field slide ''imagedescription'') (field slide ''text'') (field slide ''slideNumber'')"

text \<open>
  A value converts when its conversion to a string does not throw, and an image
  description logs when lines 186-187 do not throw on it.
\<close>

definition converts :: "js_value \<Rightarrow> bool" where
  "converts v = (case jsToString v of Inl e \<Rightarrow> False | Inr s \<Rightarrow> True)"

definition logs :: "js_value \<Rightarrow> bool" where
  "logs imagePrompt = (logAttempt imagePrompt = None)"

definition dirAvailable :: "world \<Rightarrow> bool" where
  "dirAvailable w = (imagesDirExists w \<or> mkdirImages w = None)"

text \<open>Every valid record of a deck has a slide number that converts to a string.\<close>

definition numbersConvert :: "js_object list \<Rightarrow> bool" where
  "numbersConvert slides =
     list_all (\<lambda>slide. converts (field slide ''slideNumber'')) (filter isValid slides)"

text \<open>A deck of three records, the second of them invalid, for the examples below.\<close>

definition exampleDeck :: "js_object list" where
  "exampleDeck =
     [[(''title'', JStr ''Tides''), (''text'', JStr ''Two a day''),
       (''imagedescription'', JStr ''A harbour at dusk''),
       (''slideNumber'', JNum ''1''), (''isValid'', JBool True)],
      [(''title'', JStr ''Moon''), (''text'', JStr []),
       (''slideNumber'', JNum ''2''), (''isValid'', JBool False)],
      [(''title'', JStr ''Storms''), (''text'', JStr ''Surge''),
       (''imagedescription'', JStr ''A sea wall''),
       (''slideNumber'', JNum ''3''), (''isValid'', JBool True)]]"

section \<open>Facts about the string operations\<close>



















lemma occursAt_0: "occursAt pat s 0 \<longleftrightarrow> prefix pat s"
  by (simp add: occursAt_def)

lemma occursAt_Suc: "occursAt pat (c # cs) (Suc i) \<longleftrightarrow> occursAt pat cs i"
  by (simp add: occursAt_def)

lemma contains_Cons: "contains pat (c # cs) \<longleftrightarrow> prefix pat (c # cs) \<or> contains pat cs"
proof
  assume "contains pat (c # cs)"
  then obtain i where i: "i \<le> length (c # cs)" "occursAt pat (c # cs) i"
    by (auto simp: contains_def)
  show "prefix pat (c # cs) \<or> contains pat cs"
  proof (cases i)
    case 0
    then show ?thesis using i(2) by (simp add: occursAt_0)
  next
    case (Suc n)
    then have "occursAt pat cs n" "n \<le> length cs" using i by (simp_all add: occursAt_Suc)
    then show ?thesis unfolding contains_def by blast
  qed
next
  assume "prefix pat (c # cs) \<or> contains pat cs"
  then show "contains pat (c # cs)"
  proof
    assume "prefix pat (c # cs)"
    then have "occursAt pat (c # cs) 0" by (simp add: occursAt_0)
    then show ?thesis unfolding contains_def by blast
  next
    assume "contains pat cs"
    then obtain n where "n \<le> length cs" "occursAt pat cs n" by (auto simp: contains_def)
    then have "Suc n \<le> length (c # cs)" "occursAt pat (c # cs) (Suc n)"
      by (simp_all add: occursAt_Suc)
    then show ?thesis unfolding contains_def by blast
  qed
qed

lemma contains_Nil: "contains pat [] \<longleftrightarrow> pat = []"
  by (simp add: contains_def occursAt_def)

lemma indexOf_None: "indexOf pat s = None \<longleftrightarrow> \<not> contains pat s"
  by (induction s) (auto simp: contains_Cons contains_Nil)

lemma lastIndexOf_None: "lastIndexOf pat s = None \<longleftrightarrow> \<not> contains pat s"
  by (induction s) (auto simp: contains_Cons contains_Nil split: option.splits)

lemma firstOccurrence_0: "firstOccurrence pat s 0 \<longleftrightarrow> prefix pat s"
  by (simp add: firstOccurrence_def occursAt_0)

lemma firstOccurrence_Suc:
  "firstOccurrence pat (c # cs) (Suc n) \<longleftrightarrow> \<not> prefix pat (c # cs) \<and> firstOccurrence pat cs n"
proof -
  have "(\<forall>k<Suc n. \<not> occursAt pat (c # cs) k) \<longleftrightarrow>
        \<not> occursAt pat (c # cs) 0 \<and> (\<forall>k<n. \<not> occursAt pat (c # cs) (Suc k))"
    by (auto simp: less_Suc_eq_0_disj)
  then show ?thesis
    unfolding firstOccurrence_def by (auto simp: occursAt_Suc occursAt_0)
qed

lemma indexOf_first: "indexOf pat s = Some i \<longleftrightarrow> firstOccurrence pat s i"
proof (induction s arbitrary: i)
  case Nil
  show ?case by (auto simp: firstOccurrence_def occursAt_def)
next
  case (Cons c cs)
  show ?case
  proof (cases i)
    case 0
    then show ?thesis by (simp add: firstOccurrence_0)
  next
    case (Suc n)
    then show ?thesis using Cons.IH[of n] by (auto simp: firstOccurrence_Suc)
  qed
qed

lemma lastOccurrence_Suc:
  "lastOccurrence pat (c # cs) (Suc n) \<longleftrightarrow> lastOccurrence pat cs n"
proof -
  have "(\<forall>k\<le>length (c # cs). Suc n < k \<longrightarrow> \<not> occursAt pat (c # cs) k) \<longleftrightarrow>
        (\<forall>k\<le>length cs. n < k \<longrightarrow> \<not> occursAt pat cs k)"
  proof
    assume a: "\<forall>k\<le>length (c # cs). Suc n < k \<longrightarrow> \<not> occursAt pat (c # cs) k"
    show "\<forall>k\<le>length cs. n < k \<longrightarrow> \<not> occursAt pat cs k"
    proof (intro allI impI)
      fix k assume "k \<le> length cs" "n < k"
      then have "\<not> occursAt pat (c # cs) (Suc k)" using a by simp
      then show "\<not> occursAt pat cs k" by (simp add: occursAt_Suc)
    qed
  next
    assume a: "\<forall>k\<le>length cs. n < k \<longrightarrow> \<not> occursAt pat cs k"
    show "\<forall>k\<le>length (c # cs). Suc n < k \<longrightarrow> \<not> occursAt pat (c # cs) k"
    proof (intro allI impI)
      fix k assume k: "k \<le> length (c # cs)" "Suc n < k"
      then obtain m where m: "k = Suc m" by (cases k) auto
      then have "\<not> occursAt pat cs m" using a k by simp
      then show "\<not> occursAt pat (c # cs) k" using m by (simp add: occursAt_Suc)
    qed
  qed
  then show ?thesis unfolding lastOccurrence_def by (simp add: occursAt_Suc)
qed

lemma lastOccurrence_0:
  "lastOccurrence pat (c # cs) 0 \<longleftrightarrow> prefix pat (c # cs) \<and> \<not> contains pat cs"
proof -
  have "(\<forall>k\<le>length (c # cs). 0 < k \<longrightarrow> \<not> occursAt pat (c # cs) k) \<longleftrightarrow> \<not> contains pat cs"
  proof
    assume a: "\<forall>k\<le>length (c # cs). 0 < k \<longrightarrow> \<not> occursAt pat (c # cs) k"
    have "\<not> occursAt pat cs m" if "m \<le> length cs" for m
      using a[rule_format, of "Suc m"] that by (simp add: occursAt_Suc)
    then show "\<not> contains pat cs" by (auto simp: contains_def)
  next
    assume a: "\<not> contains pat cs"
    show "\<forall>k\<le>length (c # cs). 0 < k \<longrightarrow> \<not> occursAt pat (c # cs) k"
    proof (intro allI impI)
      fix k assume k: "k \<le> length (c # cs)" "0 < k"
      then obtain m where m: "k = Suc m" by (cases k) auto
      then have "\<not> occursAt pat cs m" using a k by (auto simp: contains_def)
      then show "\<not> occursAt pat (c # cs) k" using m by (simp add: occursAt_Suc)
    qed
  qed
  then show ?thesis unfolding lastOccurrence_def by (simp add: occursAt_0)
qed

lemma lastOccurrence_contains: "lastOccurrence pat s i \<Longrightarrow> contains pat s"
  by (auto simp: lastOccurrence_def contains_def occursAt_def)

lemma lastIndexOf_last: "lastIndexOf pat s = Some i \<longleftrightarrow> lastOccurrence pat s i"
proof (induction s arbitrary: i)
  case Nil
  show ?case by (auto simp: lastOccurrence_def occursAt_def)
next
  case (Cons c cs)
  show ?case
  proof (cases i)
    case 0
    have "contains pat cs \<longleftrightarrow> lastIndexOf pat cs \<noteq> None"
      by (simp add: lastIndexOf_None)
    with 0 show ?thesis
      by (auto simp: lastOccurrence_0 split: option.splits)
  next
    case (Suc n)
    show ?thesis
    proof (cases "lastIndexOf pat cs")
      case None
      then have "\<not> contains pat cs" by (simp add: lastIndexOf_None)
      then have "\<not> lastOccurrence pat cs n" using lastOccurrence_contains by blast
      then show ?thesis using None Suc by (simp add: lastOccurrence_Suc)
    next
      case (Some j)
      then show ?thesis using Suc Cons.IH[of n] by (simp add: lastOccurrence_Suc)
    qed
  qed
qed


lemma substring_le: "a \<le> b \<Longrightarrow> b \<le> length s \<Longrightarrow> substring s a b = take (b - a) (drop a s)"
  by (simp add: substring_def Let_def min_def max_def)

lemma occursAt_append:
  assumes "occursAt (x @ y) s p"
  shows "occursAt x s p" and "occursAt y s (p + length x)"
proof -
  from assms obtain r where p: "p \<le> length s" and r: "drop p s = x @ y @ r"
    by (auto simp: occursAt_def prefix_def)
  show "occursAt x s p" using p r by (simp add: occursAt_def)
  have "drop (p + length x) s = drop (length x) (drop p s)" by (simp add: add.commute)
  then have d: "drop (p + length x) s = y @ r" using r by simp
  have "length (drop p s) = length x + length y + length r" using r by simp
  then have "p + length x \<le> length s" using p by simp
  then show "occursAt y s (p + length x)" using d by (simp add: occursAt_def)
qed

lemma occursAt_end: "occursAt pat s p \<Longrightarrow> p + length pat \<le> length s"
proof -
  assume "occursAt pat s p"
  then obtain r where p: "p \<le> length s" and "drop p s = pat @ r"
    by (auto simp: occursAt_def prefix_def)
  then have "length (drop p s) = length pat + length r" by simp
  then show ?thesis using p by simp
qed

lemma occursAt_middle: "occursAt pat (u @ pat @ v) (length u)"
  by (simp add: occursAt_def)

lemma first_le: "firstOccurrence pat s a \<Longrightarrow> occursAt pat s p \<Longrightarrow> a \<le> p"
  unfolding firstOccurrence_def by (meson not_le_imp_less)

lemma last_ge: "lastOccurrence pat s b \<Longrightarrow> occursAt pat s p \<Longrightarrow> p \<le> b"
  unfolding lastOccurrence_def occursAt_def by (meson not_le_imp_less)

lemma contains_indexOf: "contains pat s \<Longrightarrow> \<exists>i. indexOf pat s = Some i"
  using indexOf_None[of pat s] by auto

lemma contains_lastIndexOf: "contains pat s \<Longrightarrow> \<exists>i. lastIndexOf pat s = Some i"
  using lastIndexOf_None[of pat s] by auto

lemma contains_char: "contains [c] s \<longleftrightarrow> c \<in> set s"
  by (induction s) (auto simp: contains_Cons contains_Nil)

lemma occursAt_contains: "occursAt pat s p \<Longrightarrow> contains pat s"
  by (auto simp: contains_def occursAt_def)

lemma extractXml_tags:
  assumes "indexOf ''<slides>'' s = Some i" "lastIndexOf ''</slides>'' s = Some j"
  shows "extractXml s = Inr (substring s i (j + length ''</slides>''))"
  using assms by (simp add: extractXml_def)

lemma extractXml_fallback:
  assumes "indexOf ''<slides>'' s = None \<or> lastIndexOf ''</slides>'' s = None"
  shows "extractXml s =
     (case (indexOf ''<'' s, lastIndexOf ''>'' s) of
        (Some a, Some b) \<Rightarrow> Inr (substring s a (b + 1))
      | _ \<Rightarrow> Inl NoXmlStructure)"
  using assms by (auto simp: extractXml_def split: option.splits)

lemma extract_fragment:
  assumes s: "s = pre @ ''<slides>'' @ body @ ''</slides>'' @ post"
  shows "\<exists>i j. firstOccurrence ''<slides>'' s i \<and> lastOccurrence ''</slides>'' s j \<and> i < j \<and>
           extractXml s = Inr (take (j + length ''</slides>'' - i) (drop i s))"
proof -
  have o1: "occursAt ''<slides>'' s (length pre)"
    unfolding s by (rule occursAt_middle)
  define q where "q = length (pre @ ''<slides>'' @ body)"
  have o2: "occursAt ''</slides>'' s q"
    unfolding s q_def
    using occursAt_middle[of "''</slides>''" "pre @ ''<slides>'' @ body" post] by simp
  have pq: "length pre < q" by (simp add: q_def)
  from contains_indexOf[OF occursAt_contains[OF o1]] obtain i
    where i: "indexOf ''<slides>'' s = Some i" by blast
  from contains_lastIndexOf[OF occursAt_contains[OF o2]] obtain j
    where j: "lastIndexOf ''</slides>'' s = Some j" by blast
  have fi: "firstOccurrence ''<slides>'' s i" using i by (simp add: indexOf_first)
  have lj: "lastOccurrence ''</slides>'' s j" using j by (simp add: lastIndexOf_last)
  have "i \<le> length pre" by (rule first_le[OF fi o1])
  moreover have "q \<le> j" by (rule last_ge[OF lj o2])
  ultimately have ij: "i < j" using pq by simp
  have "occursAt ''</slides>'' s j" using lj by (simp add: lastOccurrence_def)
  then have "j + length ''</slides>'' \<le> length s" by (rule occursAt_end)
  moreover have "i \<le> j + length ''</slides>''" using ij by simp
  ultimately have "substring s i (j + length ''</slides>'') =
      take (j + length ''</slides>'' - i) (drop i s)"
    by (rule substring_le[rotated])
  then have "extractXml s = Inr (take (j + length ''</slides>'' - i) (drop i s))"
    using extractXml_tags[OF i j] by (simp only:)
  then show ?thesis using fi lj ij by blast
qed

lemma extract_between_brackets:
  assumes miss: "\<not> (contains ''<slides>'' s \<and> contains ''</slides>'' s)"
      and a: "firstOccurrence ''<'' s a" and b: "lastOccurrence ''>'' s b" and ab: "a \<le> b"
  shows "extractXml s = Inr (take (b + 1 - a) (drop a s))"
proof -
  have m: "indexOf ''<slides>'' s = None \<or> lastIndexOf ''</slides>'' s = None"
    using miss by (simp add: indexOf_None lastIndexOf_None)
  have ia: "indexOf ''<'' s = Some a" using a by (simp add: indexOf_first)
  have ib: "lastIndexOf ''>'' s = Some b" using b by (simp add: lastIndexOf_last)
  have "occursAt ''>'' s b" using b by (simp add: lastOccurrence_def)
  then have "b + 1 \<le> length s" using occursAt_end by fastforce
  then have "substring s a (b + 1) = take (b + 1 - a) (drop a s)"
    using ab by (simp add: substring_le)
  then show ?thesis using extractXml_fallback[OF m] ia ib by simp
qed

lemma extract_no_brackets:
  assumes miss: "\<not> (contains ''<slides>'' s \<and> contains ''</slides>'' s)"
      and nb: "CHR ''<'' \<notin> set s \<or> CHR ''>'' \<notin> set s"
  shows "extractXml s = Inl NoXmlStructure"
proof -
  have m: "indexOf ''<slides>'' s = None \<or> lastIndexOf ''</slides>'' s = None"
    using miss by (simp add: indexOf_None lastIndexOf_None)
  have "indexOf ''<'' s = None \<or> lastIndexOf ''>'' s = None"
    using nb by (simp add: indexOf_None lastIndexOf_None contains_char)
  then show ?thesis using extractXml_fallback[OF m] by (auto split: option.splits)
qed

lemma tag_brackets:
  assumes "occursAt (CHR ''<'' # mid @ ''>'') s p"
  shows "occursAt ''<'' s p" and "occursAt ''>'' s (p + 1 + length mid)"
proof -
  have w: "occursAt (''<'' @ (mid @ ''>'')) s p" using assms by simp
  show "occursAt ''<'' s p" by (rule occursAt_append(1)[OF w])
  have o: "occursAt (mid @ ''>'') s (p + length ''<'')" by (rule occursAt_append(2)[OF w])
  from occursAt_append(2)[OF o] show "occursAt ''>'' s (p + 1 + length mid)" by simp
qed

lemma extract_one_tag:
  assumes one: "contains ''<slides>'' s \<noteq> contains ''</slides>'' s"
      and lt: "CHR ''<'' \<in> set s" and gt: "CHR ''>'' \<in> set s"
  shows "\<exists>a b. firstOccurrence ''<'' s a \<and> lastOccurrence ''>'' s b \<and> a < b \<and>
           extractXml s = Inr (take (b + 1 - a) (drop a s))"
proof -
  from lt obtain a where ia: "indexOf ''<'' s = Some a"
    using contains_indexOf contains_char by blast
  from gt obtain b where ib: "lastIndexOf ''>'' s = Some b"
    using contains_lastIndexOf contains_char by blast
  have fa: "firstOccurrence ''<'' s a" using ia by (simp add: indexOf_first)
  have lb: "lastOccurrence ''>'' s b" using ib by (simp add: lastIndexOf_last)
  have "\<exists>p mid. occursAt (CHR ''<'' # mid @ ''>'') s p"
  proof (cases "contains ''<slides>'' s")
    case True
    then obtain p where "occursAt (CHR ''<'' # ''slides'' @ ''>'') s p"
      by (auto simp: contains_def)
    then show ?thesis by blast
  next
    case False
    then have "contains ''</slides>'' s" using one by simp
    then obtain p where "occursAt (CHR ''<'' # ''/slides'' @ ''>'') s p"
      by (auto simp: contains_def)
    then show ?thesis by blast
  qed
  then obtain p mid where o: "occursAt (CHR ''<'' # mid @ ''>'') s p" by blast
  have "a \<le> p" by (rule first_le[OF fa tag_brackets(1)[OF o]])
  moreover have "p + 1 + length mid \<le> b" by (rule last_ge[OF lb tag_brackets(2)[OF o]])
  ultimately have ab: "a < b" by simp
  have miss: "\<not> (contains ''<slides>'' s \<and> contains ''</slides>'' s)" using one by auto
  have "extractXml s = Inr (take (b + 1 - a) (drop a s))"
    by (rule extract_between_brackets[OF miss fa lb]) (use ab in simp)
  then show ?thesis using fa lb ab by blast
qed

section \<open>Ampersand repair\<close>



section \<open>Extraction\<close>

text \<open>
  C4, as amended, for the trimmed response of the text model, which is the text that
  lines 114-128 read: when the text is a fragment from \<open><slides>\<close> to \<open></slides>\<close> with
  arbitrary text before and after, the extraction is the part from the first occurrence
  of \<open><slides>\<close> through the last occurrence of \<open></slides>\<close>. When a root tag is
  missing and the first \<open><\<close> is not after the last \<open>>\<close>, it is the part from the first
  \<open><\<close> through the last \<open>>\<close>. When a root tag is missing and the text has no \<open><\<close> or
  no \<open>>\<close>, the extraction fails with the error "No XML structure found".
\<close>

theorem extractXml_cases:
  "(s = pre @ ''<slides>'' @ body @ ''</slides>'' @ post \<longrightarrow>
      (\<exists>i j. firstOccurrence ''<slides>'' s i \<and> lastOccurrence ''</slides>'' s j \<and> i < j \<and>
             extractXml s = Inr (take (j + length ''</slides>'' - i) (drop i s)))) \<and>
   (\<not> (contains ''<slides>'' t \<and> contains ''</slides>'' t) \<and>
    firstOccurrence ''<'' t a \<and> lastOccurrence ''>'' t b \<and> a \<le> b \<longrightarrow>
      extractXml t = Inr (take (b + 1 - a) (drop a t))) \<and>
   (\<not> (contains ''<slides>'' u \<and> contains ''</slides>'' u) \<and>
    (CHR ''<'' \<notin> set u \<or> CHR ''>'' \<notin> set u) \<longrightarrow>
      extractXml u = Inl NoXmlStructure)"
  using extract_fragment[of s pre body post] extract_between_brackets[of t a b]
    extract_no_brackets[of u]
  by (intro conjI impI) blast+

theorem extractXml_cases_witness:
  "(\<exists>i j. firstOccurrence ''<slides>'' ''Sure: <slides><slide/></slides> Done.'' i \<and>
          lastOccurrence ''</slides>'' ''Sure: <slides><slide/></slides> Done.'' j \<and> i < j \<and>
          extractXml ''Sure: <slides><slide/></slides> Done.'' =
            Inr (take (j + length ''</slides>'' - i) (drop i ''Sure: <slides><slide/></slides> Done.''))) \<and>
   extractXml ''see <a>b</a> ok'' = Inr ''<a>b</a>'' \<and>
   extractXml ''a < b'' = Inl NoXmlStructure"
proof -
  have h1: "''Sure: <slides><slide/></slides> Done.'' =
      ''Sure: '' @ ''<slides>'' @ ''<slide/>'' @ ''</slides>'' @ '' Done.''" by simp
  have h2: "\<not> (contains ''<slides>'' ''see <a>b</a> ok'' \<and> contains ''</slides>'' ''see <a>b</a> ok'') \<and>
      firstOccurrence ''<'' ''see <a>b</a> ok'' 4 \<and> lastOccurrence ''>'' ''see <a>b</a> ok'' 11 \<and>
      (4::nat) \<le> 11"
    by (simp add: indexOf_first[symmetric] lastIndexOf_last[symmetric] indexOf_None[symmetric])
  have h3: "\<not> (contains ''<slides>'' ''a < b'' \<and> contains ''</slides>'' ''a < b'') \<and>
      (CHR ''<'' \<notin> set ''a < b'' \<or> CHR ''>'' \<notin> set ''a < b'')"
    by (simp add: indexOf_None[symmetric])
  have c: "take (11 + 1 - 4) (drop 4 ''see <a>b</a> ok'') = ''<a>b</a>''" by simp
  from extractXml_cases[of "''Sure: <slides><slide/></slides> Done.''" "''Sure: ''" "''<slide/>''"
        "'' Done.''" "''see <a>b</a> ok''" 4 11 "''a < b''"]
  show ?thesis
    unfolding c using h1 h2 h3 by blast
qed

text \<open>
  The claim as stated fails on \<open>a < b\<close>: the root tags are absent and the text has an angle
  bracket, but no \<open>>\<close>, and the extraction fails instead of returning a substring.
\<close>

theorem extractXml_cases_counterexample:
  "\<not> contains ''<slides>'' ''a < b'' \<and> \<not> contains ''</slides>'' ''a < b'' \<and>
   CHR ''<'' \<in> set ''a < b'' \<and> extractXml ''a < b'' = Inl NoXmlStructure"
  by (simp add: indexOf_None[symmetric] extractXml_def)

text \<open>
  C10: when exactly one of the two root tags occurs in the text, and the text has a \<open><\<close>
  and a \<open>>\<close>, the extraction does not fail: it is the part from the first \<open><\<close> through
  the last \<open>>\<close>.
\<close>

theorem extractXml_one_root_tag:
  "contains ''<slides>'' s \<noteq> contains ''</slides>'' s \<and> CHR ''<'' \<in> set s \<and> CHR ''>'' \<in> set s \<longrightarrow>
     (\<exists>a b. firstOccurrence ''<'' s a \<and> lastOccurrence ''>'' s b \<and> a < b \<and>
           extractXml s = Inr (take (b + 1 - a) (drop a s)))"
  using extract_one_tag[of s] by blast

theorem extractXml_one_root_tag_witness:
  "\<exists>a b. firstOccurrence ''<'' ''ok <slides><slide/> end'' a \<and>
         lastOccurrence ''>'' ''ok <slides><slide/> end'' b \<and> a < b \<and>
         extractXml ''ok <slides><slide/> end'' = Inr (take (b + 1 - a) (drop a ''ok <slides><slide/> end''))"
proof -
  have h: "contains ''<slides>'' ''ok <slides><slide/> end'' \<noteq> contains ''</slides>'' ''ok <slides><slide/> end''
      \<and> CHR ''<'' \<in> set ''ok <slides><slide/> end'' \<and> CHR ''>'' \<in> set ''ok <slides><slide/> end''"
    using indexOf_None[of "''<slides>''" "''ok <slides><slide/> end''"]
      indexOf_None[of "''</slides>''" "''ok <slides><slide/> end''"] by simp
  show ?thesis
    using extractXml_one_root_tag[of "''ok <slides><slide/> end''"] h by blast
qed

section \<open>The retry loop\<close>

lemma attempt_fails:
  "logs imagePrompt \<Longrightarrow> callFails (api j) \<Longrightarrow>
   attempt api wr imagePrompt path j = (Inl (callError (api j)), [imageRequest imagePrompt])"
  by (auto simp: attempt_def logs_def callFails_def callError_def imageRequest_def
      split: api_result.splits option.splits)

lemma attempt_not_logged:
  "logAttempt imagePrompt = Some e \<Longrightarrow> attempt api wr imagePrompt path j = (Inl e, [])"
  by (simp add: attempt_def)

lemma retryLoop_last:
  assumes "attempt api wr imagePrompt path 3 = (Inl e, evs)"
  shows "retryLoop api wr imagePrompt path 3 = (Failure (errorReport e), evs)"
  using assms
  by (simp add: retryLoop.simps[of api wr imagePrompt path 3] MAX_IMAGE_RETRIES_def)

lemma retryLoop_retry:
  assumes "attempt api wr imagePrompt path j = (Inl e, evs)" "j < 3" "k = j + 1"
    and "retryLoop api wr imagePrompt path k = (out, rest)"
  shows "retryLoop api wr imagePrompt path j = (out, evs @ [Wait (1000 * 2 ^ j)] @ rest)"
  using assms
  by (simp add: retryLoop.simps[of api wr imagePrompt path j] MAX_IMAGE_RETRIES_def
      INITIAL_IMAGE_RETRY_DELAY_MS_def Let_def)

lemma retryLoop_four_failures:
  assumes a: "\<And>j. attempt api wr imagePrompt path j = (Inl (err j), evs)"
  shows "retryLoop api wr imagePrompt path 0 =
     (Failure (errorReport (err 3)),
      evs @ [Wait 1000] @ evs @ [Wait 2000] @ evs @ [Wait 4000] @ evs)"
proof -
  have r3: "retryLoop api wr imagePrompt path 3 = (Failure (errorReport (err 3)), evs)"
    by (rule retryLoop_last[OF a])
  have "retryLoop api wr imagePrompt path 2 =
      (Failure (errorReport (err 3)), evs @ [Wait (1000 * 2 ^ 2)] @ evs)"
    by (rule retryLoop_retry[where k = 3 and e = "err 2"]) (use a r3 in simp_all)
  then have r2: "retryLoop api wr imagePrompt path 2 =
      (Failure (errorReport (err 3)), evs @ [Wait 4000] @ evs)"
    by simp
  have "retryLoop api wr imagePrompt path 1 =
      (Failure (errorReport (err 3)), evs @ [Wait (1000 * 2 ^ 1)] @ evs @ [Wait 4000] @ evs)"
    by (rule retryLoop_retry[where k = 2 and e = "err 1"]) (use a r2 in simp_all)
  then have r1: "retryLoop api wr imagePrompt path 1 =
      (Failure (errorReport (err 3)), evs @ [Wait 2000] @ evs @ [Wait 4000] @ evs)"
    by simp
  have "retryLoop api wr imagePrompt path 0 =
      (Failure (errorReport (err 3)),
       evs @ [Wait (1000 * 2 ^ 0)] @ evs @ [Wait 2000] @ evs @ [Wait 4000] @ evs)"
    by (rule retryLoop_retry[where k = 1 and e = "err 0"]) (use a r1 in simp_all)
  then show ?thesis by simp
qed

lemma retryLoop_all_fail:
  assumes "\<forall>j. callFails (api j)" "logs imagePrompt"
  shows "retryLoop api wr imagePrompt path 0 =
     (Failure (errorReport (callError (api 3))),
      [imageRequest imagePrompt, Wait 1000, imageRequest imagePrompt, Wait 2000,
       imageRequest imagePrompt, Wait 4000, imageRequest imagePrompt])"
proof -
  have "\<And>j. attempt api wr imagePrompt path j =
      (Inl ((\<lambda>j. callError (api j)) j), [imageRequest imagePrompt])"
    using assms by (simp add: attempt_fails)
  from retryLoop_four_failures[of api wr imagePrompt path "\<lambda>j. callError (api j)", OF this]
  show ?thesis by simp
qed

lemma retryLoop_not_logged:
  assumes "logAttempt imagePrompt = Some e"
  shows "retryLoop api wr imagePrompt path 0 =
     (Failure (errorReport e), [Wait 1000, Wait 2000, Wait 4000])"
proof -
  have "\<And>j. attempt api wr imagePrompt path j = (Inl ((\<lambda>j. e) j), [])"
    using assms by (simp add: attempt_not_logged)
  from retryLoop_four_failures[of api wr imagePrompt path "\<lambda>j. e", OF this]
  show ?thesis by simp
qed

lemma converts_path: "converts slideNumber \<Longrightarrow> \<exists>path. imagePath dir slideNumber = Inr path"
  by (auto simp: converts_def imagePath_def bindE_def split: sum.splits)

lemma logs_string: "logs (JStr s)"
  by (simp add: logs_def logAttempt_def displayPrompt_def bindE_def)

lemma converts_primitive: "converts (JStr s)" "converts (JNum r)"
  by (simp_all add: converts_def)

text \<open>
  C1, as amended: for every image description on which the log lines do not throw (every
  string is one) and every slide number that converts to a string (every string and
  every number is one), if every image call fails, generateImageWithRetry makes exactly
  4 requests, waits 1000 ms, 2000 ms and 4000 ms before the second, third and fourth,
  and returns a failure that carries the message of the last error when that message is
  not empty, and the error itself when it is empty; no file is written.
\<close>

theorem generateImageWithRetry_all_fail:
  "((\<forall>j. callFails (api j)) \<and> logs imageDescription \<and> converts slideNumber \<longrightarrow>
      generateImageWithRetry dir api wr imageDescription slideText slideNumber =
        Inr (Failure (if message (callError (api 3)) \<noteq> []
                      then Message (message (callError (api 3)))
                      else ErrorValue (callError (api 3))),
             [imageRequest imageDescription, Wait 1000, imageRequest imageDescription,
              Wait 2000, imageRequest imageDescription, Wait 4000,
              imageRequest imageDescription])) \<and>
   logs (JStr s) \<and> converts (JStr t) \<and> converts (JNum r)"
proof (intro conjI impI)
  assume a: "(\<forall>j. callFails (api j)) \<and> logs imageDescription \<and> converts slideNumber"
  then obtain path where p: "imagePath dir slideNumber = Inr path"
    using converts_path by blast
  have "retryLoop api wr imageDescription path 0 =
     (Failure (errorReport (callError (api 3))),
      [imageRequest imageDescription, Wait 1000, imageRequest imageDescription, Wait 2000,
       imageRequest imageDescription, Wait 4000, imageRequest imageDescription])"
    using a by (simp add: retryLoop_all_fail)
  then show "generateImageWithRetry dir api wr imageDescription slideText slideNumber =
        Inr (Failure (if message (callError (api 3)) \<noteq> []
                      then Message (message (callError (api 3)))
                      else ErrorValue (callError (api 3))),
             [imageRequest imageDescription, Wait 1000, imageRequest imageDescription,
              Wait 2000, imageRequest imageDescription, Wait 4000,
              imageRequest imageDescription])"
    using p by (simp add: generateImageWithRetry_def bindE_def errorReport_def)
qed (simp_all add: logs_string converts_primitive)

theorem generateImageWithRetry_all_fail_witness:
  "generateImageWithRetry ''/srv/slidegen'' (\<lambda>j. Rejects (LibError ''rate limit'')) (\<lambda>j. None)
     (JStr ''a lighthouse'') (JStr ''notes'') (JNum ''4'') =
     Inr (Failure (Message ''rate limit''),
          [imageRequest (JStr ''a lighthouse''), Wait 1000, imageRequest (JStr ''a lighthouse''),
           Wait 2000, imageRequest (JStr ''a lighthouse''), Wait 4000,
           imageRequest (JStr ''a lighthouse'')])"
proof -
  have h: "(\<forall>j. callFails ((\<lambda>j. Rejects (LibError ''rate limit'')) j)) \<and>
      logs (JStr ''a lighthouse'') \<and> converts (JNum ''4'')"
    by (simp add: callFails_def logs_string converts_primitive)
  from generateImageWithRetry_all_fail[of "\<lambda>j. Rejects (LibError ''rate limit'')"
      "JStr ''a lighthouse''" "JNum ''4''" "''/srv/slidegen''" "\<lambda>j. None" "JStr ''notes''"] h
  show ?thesis by (simp add: callError_def)
qed

text \<open>
  The claim as stated fails in three ways. When the last error has an empty message the
  outcome carries the error value, not its message. When the description is \<open>null\<close> the
  log lines throw in every attempt, before the request: no request is made and the
  outcome carries the message of that \<open>TypeError\<close>. When the slide number is an object
  with an own \<open>toString\<close> property the path cannot be built and the call rejects,
  returning no outcome.
\<close>

theorem generateImageWithRetry_all_fail_counterexample:
  "generateImageWithRetry ''/srv/slidegen'' (\<lambda>j. Rejects (LibError [])) (\<lambda>j. None)
          (JStr ''a lighthouse'') (JStr ''notes'') (JNum ''4'') =
     Inr (Failure (ErrorValue (LibError [])),
          [imageRequest (JStr ''a lighthouse''), Wait 1000, imageRequest (JStr ''a lighthouse''),
           Wait 2000, imageRequest (JStr ''a lighthouse''), Wait 4000,
           imageRequest (JStr ''a lighthouse'')]) \<and>
   generateImageWithRetry ''/srv/slidegen'' (\<lambda>j. Rejects (LibError ''rate limit'')) (\<lambda>j. None)
          JNull (JStr ''notes'') (JNum ''4'') =
     Inr (Failure (Message (message (cannotRead JNull ''length''))),
          [Wait 1000, Wait 2000, Wait 4000]) \<and>
   generateImageWithRetry ''/srv/slidegen'' (\<lambda>j. Rejects (LibError ''rate limit'')) (\<lambda>j. None)
          (JStr ''a lighthouse'') (JStr ''notes'') (JObj [(''toString'', JNum ''1'')]) =
     Inl (TypeError ''Cannot convert object to primitive value'')"
proof -
  have h: "(\<forall>j. callFails ((\<lambda>j. Rejects (LibError [])) j))" by (simp add: callFails_def)
  obtain path where p: "imagePath ''/srv/slidegen'' (JNum ''4'') = Inr path"
    using converts_path[OF converts_primitive(2)] by blast
  have "retryLoop (\<lambda>j. Rejects (LibError [])) (\<lambda>j. None) (JStr ''a lighthouse'') path 0 =
     (Failure (errorReport (callError (Rejects (LibError [])))),
      [imageRequest (JStr ''a lighthouse''), Wait 1000, imageRequest (JStr ''a lighthouse''),
       Wait 2000, imageRequest (JStr ''a lighthouse''), Wait 4000,
       imageRequest (JStr ''a lighthouse'')])"
    using retryLoop_all_fail[of "\<lambda>j. Rejects (LibError [])" "JStr ''a lighthouse''"
        "\<lambda>j. None" path] h logs_string by simp
  then have 1: "generateImageWithRetry ''/srv/slidegen'' (\<lambda>j. Rejects (LibError []))
      (\<lambda>j. None) (JStr ''a lighthouse'') (JStr ''notes'') (JNum ''4'') =
     Inr (Failure (ErrorValue (LibError [])),
          [imageRequest (JStr ''a lighthouse''), Wait 1000, imageRequest (JStr ''a lighthouse''),
           Wait 2000, imageRequest (JStr ''a lighthouse''), Wait 4000,
           imageRequest (JStr ''a lighthouse'')])"
    using p by (simp add: generateImageWithRetry_def bindE_def errorReport_def callError_def)
  have l: "logAttempt JNull = Some (cannotRead JNull ''length'')"
    by (simp add: logAttempt_def displayPrompt_def bindE_def)
  have m: "message (cannotRead JNull ''length'') \<noteq> []" by (simp add: cannotRead_def)
  have 2: "generateImageWithRetry ''/srv/slidegen'' (\<lambda>j. Rejects (LibError ''rate limit''))
      (\<lambda>j. None) JNull (JStr ''notes'') (JNum ''4'') =
     Inr (Failure (Message (message (cannotRead JNull ''length''))),
          [Wait 1000, Wait 2000, Wait 4000])"
    using p retryLoop_not_logged[OF l, of "\<lambda>j. Rejects (LibError ''rate limit'')" "\<lambda>j. None" path] m
    by (simp add: generateImageWithRetry_def bindE_def errorReport_def)
  have 3: "generateImageWithRetry ''/srv/slidegen'' (\<lambda>j. Rejects (LibError ''rate limit''))
      (\<lambda>j. None) (JStr ''a lighthouse'') (JStr ''notes'') (JObj [(''toString'', JNum ''1'')]) =
     Inl (TypeError ''Cannot convert object to primitive value'')"
    by (simp add: generateImageWithRetry_def imagePath_def bindE_def)
  from 1 2 3 show ?thesis by blast
qed

section \<open>Facts about slide records\<close>

lemma showNat_small:
  "showNat (Suc 0) = ''1''" "showNat (Suc (Suc 0)) = ''2''" "showNat (Suc (Suc (Suc 0))) = ''3''"
  "showNat 1 = ''1''" "showNat 2 = ''2''" "showNat 3 = ''3''"
  by (simp_all add: showNat.simps digitChar_def)

lemma field_update:
  "field (AList.update k v al) k' = (if k' = k then v else field al k')"
  by (simp add: field_def update_conv')

lemma bindE_Inr: "bindE (Inr x) f = f x"
  by (simp add: bindE_def)

lemma bindE_Inl: "bindE (Inl e) f = Inl e"
  by (simp add: bindE_def)

lemma getProp_nullish: "nullish v \<Longrightarrow> getProp v k = Inl (cannotRead v k)"
  by (simp add: getProp_def)

lemma getProp_value: "\<not> nullish v \<Longrightarrow> getProp v k = Inr (readProp v k)"
  by (simp add: getProp_def)

lemma validityOf_nullish: "nullish s \<Longrightarrow> validityOf s = Inl (cannotRead s ''title'')"
  by (simp add: validityOf_def getProp_nullish bindE_Inl)

lemma validityOf_value:
  "\<not> nullish s \<Longrightarrow>
   validityOf s =
     Inr (truthy (readProp s ''title'') \<and> truthy (readProp s ''text'') \<and>
          truthy (readProp s ''imagedescription''))"
  by (simp add: validityOf_def getProp_value bindE_Inr)

lemma loadedRecord_nullish: "nullish s \<Longrightarrow> loadedRecord i s = Inl (cannotRead s ''slideNumber'')"
  by (simp add: loadedRecord_def getProp_nullish bindE_Inl)

lemma loadedRecord_value:
  "\<not> nullish s \<Longrightarrow>
   loadedRecord i s =
     Inr (AList.update ''isValid''
            (JBool (truthy (readProp s ''title'') \<and> truthy (readProp s ''text'') \<and>
                    truthy (readProp s ''imagedescription'')))
            (AList.update ''slideNumber''
               (if truthy (readProp s ''slideNumber'') then readProp s ''slideNumber''
                else JNum (showNat (i + 1)))
               (ownProps s)))"
  by (simp add: loadedRecord_def getProp_value validityOf_value bindE_Inr)

lemma freshRecord_nullish: "nullish s \<Longrightarrow> freshRecord i s = Inl (cannotRead s ''title'')"
  by (simp add: freshRecord_def validityOf_nullish bindE_Inl)

lemma freshRecord_value:
  "\<not> nullish s \<Longrightarrow>
   freshRecord i s =
     Inr (AList.update ''isValid''
            (JBool (truthy (readProp s ''title'') \<and> truthy (readProp s ''text'') \<and>
                    truthy (readProp s ''imagedescription'')))
            (AList.update ''slideNumber'' (JNum (showNat (i + 1))) (ownProps s)))"
  by (simp add: freshRecord_def validityOf_value bindE_Inr)

lemma mapIndexed_Inr:
  "mapIndexed f i xs = Inr ys \<Longrightarrow>
   length ys = length xs \<and> (\<forall>k<length xs. f (i + k) (xs ! k) = Inr (ys ! k))"
proof (induction xs arbitrary: i ys)
  case Nil
  then show ?case by simp
next
  case (Cons x xs)
  from Cons.prems obtain y ys' where
    y: "f i x = Inr y" and r: "mapIndexed f (Suc i) xs = Inr ys'" and ys: "ys = y # ys'"
    by (auto simp: bindE_def split: sum.splits)
  from Cons.IH[OF r] have
    l: "length ys' = length xs" and
    n: "\<forall>k<length xs. f (Suc i + k) (xs ! k) = Inr (ys' ! k)" by simp_all
  show ?case
  proof (intro conjI allI impI)
    show "length ys = length (x # xs)" using l ys by simp
  next
    fix k assume "k < length (x # xs)"
    then show "f (i + k) ((x # xs) ! k) = Inr (ys ! k)"
      using y n ys by (cases k) simp_all
  qed
qed

lemma mapIndexed_total:
  "\<forall>k<length xs. \<exists>y. f (i + k) (xs ! k) = Inr y \<Longrightarrow> \<exists>ys. mapIndexed f i xs = Inr ys"
proof (induction xs arbitrary: i)
  case Nil
  show ?case by simp
next
  case (Cons x xs)
  from Cons.prems[rule_format, of 0] obtain y where y: "f i x = Inr y" by auto
  have "\<forall>k<length xs. \<exists>y. f (Suc i + k) (xs ! k) = Inr y"
  proof (intro allI impI)
    fix k assume "k < length xs"
    then show "\<exists>y. f (Suc i + k) (xs ! k) = Inr y"
      using Cons.prems[rule_format, of "Suc k"] by simp
  qed
  from Cons.IH[OF this] obtain ys where "mapIndexed f (Suc i) xs = Inr ys" by blast
  then show ?case using y by (simp add: bindE_def)
qed

lemma mapIndexed_fails:
  "mapIndexed f i xs = Inl e \<Longrightarrow> \<exists>k<length xs. f (i + k) (xs ! k) = Inl e"
proof (induction xs arbitrary: i)
  case Nil
  then show ?case by simp
next
  case (Cons x xs)
  show ?case
  proof (cases "f i x")
    case (Inl e')
    then have "e' = e" using Cons.prems by (simp add: bindE_def)
    then have "f (i + 0) ((x # xs) ! 0) = Inl e" using Inl by simp
    then show ?thesis by blast
  next
    case (Inr y)
    then have "mapIndexed f (Suc i) xs = Inl e"
      using Cons.prems by (auto simp: bindE_def split: sum.splits)
    from Cons.IH[OF this] obtain k where "k < length xs" "f (Suc i + k) (xs ! k) = Inl e"
      by blast
    then have "Suc k < length (x # xs)" "f (i + Suc k) ((x # xs) ! Suc k) = Inl e"
      by simp_all
    then show ?thesis by blast
  qed
qed

lemma loadSlides_array:
  "xs \<noteq> [] \<Longrightarrow> loadSlides (Inr (JArr xs)) = mapIndexed loadedRecord 0 xs"
  by (simp add: loadSlides_def bindE_Inr)

lemma loadSlides_success:
  assumes "loadSlides stored = Inr deck"
  shows "\<exists>xs. stored = Inr (JArr xs) \<and> xs \<noteq> [] \<and> length deck = length xs \<and>
           (\<forall>k<length xs. \<not> nullish (xs ! k) \<and> loadedRecord k (xs ! k) = Inr (deck ! k))"
proof -
  from assms obtain xs where s: "stored = Inr (JArr xs)" and ne: "xs \<noteq> []"
    and m: "mapIndexed loadedRecord 0 xs = Inr deck"
    by (auto simp: loadSlides_def bindE_def split: sum.splits js_value.splits if_splits)
  from mapIndexed_Inr[OF m] have l: "length deck = length xs"
    and r: "\<forall>k<length xs. loadedRecord k (xs ! k) = Inr (deck ! k)" by simp_all
  have "\<not> nullish (xs ! k)" if "k < length xs" for k
    using r[rule_format, OF that] loadedRecord_nullish[of "xs ! k" k] by auto
  then show ?thesis using s ne l r by blast
qed

lemma loadSlides_no_null:
  assumes "xs \<noteq> []" "\<forall>x\<in>set xs. \<not> nullish x"
  shows "\<exists>deck. loadSlides (Inr (JArr xs)) = Inr deck"
proof -
  have "\<forall>k<length xs. \<exists>y. loadedRecord (0 + k) (xs ! k) = Inr y"
    using assms(2) by (simp add: loadedRecord_value)
  from mapIndexed_total[OF this] show ?thesis using assms(1) by (simp add: loadSlides_array)
qed

lemma loadSlides_null:
  assumes "x \<in> set xs" "nullish x"
  shows "\<exists>e. loadSlides (Inr (JArr xs)) = Inl e"
proof (cases "loadSlides (Inr (JArr xs))")
  case (Inl e)
  then show ?thesis by blast
next
  case (Inr deck)
  from loadSlides_success[OF Inr] have n: "\<forall>k<length xs. \<not> nullish (xs ! k)" by auto
  from assms(1) obtain k where "k < length xs" "xs ! k = x" by (auto simp: in_set_conv_nth)
  then show ?thesis using n assms(2) by auto
qed

lemma slidesFromParsed_success:
  assumes "slidesFromParsed parsedResult = Inr deck"
  shows "\<exists>xs. slideElements parsedResult = Inr xs \<and> length deck = length xs \<and>
           (\<forall>k<length xs. \<not> nullish (xs ! k) \<and> freshRecord k (xs ! k) = Inr (deck ! k))"
proof -
  from assms obtain xs where s: "slideElements parsedResult = Inr xs"
    and m: "mapIndexed freshRecord 0 xs = Inr deck"
    by (auto simp: slidesFromParsed_def bindE_def split: sum.splits)
  from mapIndexed_Inr[OF m] have l: "length deck = length xs"
    and r: "\<forall>k<length xs. freshRecord k (xs ! k) = Inr (deck ! k)" by simp_all
  have "\<not> nullish (xs ! k)" if "k < length xs" for k
    using r[rule_format, OF that] freshRecord_nullish[of "xs ! k" k] by auto
  then show ?thesis using s l r by blast
qed

section \<open>Facts about decimal rendering and image paths\<close>

lemma digit_cases:
  assumes "d < (10::nat)"
  obtains "d = 0" | "d = 1" | "d = 2" | "d = 3" | "d = 4"
    | "d = 5" | "d = 6" | "d = 7" | "d = 8" | "d = 9"
proof -
  have "d = 0 \<or> d = 1 \<or> d = 2 \<or> d = 3 \<or> d = 4 \<or> d = 5 \<or> d = 6 \<or> d = 7 \<or> d = 8 \<or> d = 9"
    using assms by arith
  then show thesis using that by blast
qed

lemma digitVal_digitChar: "d < 10 \<Longrightarrow> digitVal (digitChar d) = d"
  by (erule digit_cases) (simp_all add: digitVal_def digitChar_def)

lemma isDigit_digitChar: "d < 10 \<Longrightarrow> isDigit (digitChar d)"
  by (erule digit_cases) (simp_all add: isDigit_def digitChar_def)

lemma readNat_snoc: "readNat (s @ [c]) = 10 * readNat s + digitVal c"
  by (simp add: readNat_def)

lemma readNat_showNat: "readNat (showNat n) = n"
proof (induction n rule: showNat.induct)
  case (1 n)
  show ?case
  proof (cases "n < 10")
    case True
    then show ?thesis
      using readNat_snoc[of "[]" "digitChar n"]
      by (simp add: showNat.simps[of n] digitVal_digitChar readNat_def)
  next
    case False
    then have "readNat (showNat (n div 10)) = n div 10" using "1.IH" by simp
    then show ?thesis
      using False by (simp add: showNat.simps[of n] readNat_snoc digitVal_digitChar)
  qed
qed

lemma showNat_inj: "showNat m = showNat n \<Longrightarrow> m = n"
  by (metis readNat_showNat)

lemma showNat_digits: "c \<in> set (showNat n) \<Longrightarrow> isDigit c"
proof (induction n rule: showNat.induct)
  case (1 n)
  show ?case
  proof (cases "n < 10")
    case True
    then show ?thesis using "1.prems" by (simp add: showNat.simps[of n] isDigit_digitChar)
  next
    case False
    then show ?thesis
      using "1.prems" "1.IH" by (auto simp: showNat.simps[of n] isDigit_digitChar)
  qed
qed

lemma showNat_not_name:
  assumes "\<exists>c\<in>set name. \<not> isDigit c"
  shows "name \<noteq> showNat n"
  using assms showNat_digits by blast

lemma splitOn_not_Nil: "splitOn c s \<noteq> []"
  by (induction s) (auto split: list.splits)

lemma splitOn_append: "splitOn c (a @ c # b) = splitOn c a @ splitOn c b"
proof (induction a)
  case Nil
  show ?case by simp
next
  case (Cons x a)
  show ?case
  proof (cases "x = c")
    case True
    then show ?thesis using Cons.IH by simp
  next
    case False
    obtain s ss where "splitOn c a = s # ss"
      using splitOn_not_Nil[of c a] by (cases "splitOn c a") auto
    then show ?thesis using False Cons.IH by simp
  qed
qed

lemma splitOn_plain: "c \<notin> set s \<Longrightarrow> splitOn c s = [s]"
  by (induction s) auto

lemma joinWith_snoc:
  "joinWith sep (xs @ [x]) = (if xs = [] then x else joinWith sep xs @ sep @ x)"
  by (induction sep xs rule: joinWith.induct) auto

text \<open>A file name: a segment that a path keeps as it is.\<close>

lemma normalize_file:
  assumes x: "X \<noteq> []" and n: "name \<noteq> []" "name \<noteq> ''.''" "name \<noteq> ''..''"
    "CHR ''/'' \<notin> set name"
  shows "normalize (X @ CHR ''/'' # name) =
     (if hd X = CHR ''/'' then ''/'' else []) @
     (if foldl (normStep (hd X \<noteq> CHR ''/'')) [] (splitOn CHR ''/'' X) = [] then []
      else joinWith ''/'' (foldl (normStep (hd X \<noteq> CHR ''/'')) [] (splitOn CHR ''/'' X)) @ ''/'') @
     name"
proof -
  let ?p = "X @ CHR ''/'' # name"
  have h: "hd ?p = hd X" using x by simp
  have "last name \<in> set name" using n(1) by (rule last_in_set)
  then have "last name \<noteq> CHR ''/''" using n(4) by metis
  then have l: "last ?p \<noteq> CHR ''/''" using n(1) by simp
  have sp: "splitOn CHR ''/'' ?p = splitOn CHR ''/'' X @ [name]"
    using n(4) by (simp add: splitOn_append splitOn_plain)
  have f: "foldl (normStep a) [] (splitOn CHR ''/'' ?p) =
      foldl (normStep a) [] (splitOn CHR ''/'' X) @ [name]" for a
    unfolding sp using n(1,2,3) by (simp add: normStep_def)
  have ne: "?p \<noteq> []" by simp
  show ?thesis
  proof (cases "hd X = CHR ''/''")
    case True
    then show ?thesis
      unfolding normalize_def Let_def h f
      using l ne by (simp add: joinWith_snoc)
  next
    case False
    then show ?thesis
      unfolding normalize_def Let_def h f
      using l ne by (simp add: joinWith_snoc)
  qed
qed

lemma pathJoin_file:
  assumes n: "name \<noteq> []" "name \<noteq> ''.''" "name \<noteq> ''..''" "CHR ''/'' \<notin> set name"
  shows "\<exists>X. X \<noteq> [] \<and> pathJoin [dir, IMAGES_DIR, name] = normalize (X @ CHR ''/'' # name) \<and>
             X = (if dir = [] then ''images'' else dir @ ''/images'')"
  using n(1) by (simp add: pathJoin_def IMAGES_DIR_def)

lemma pathJoin_base:
  "\<exists>base. \<forall>name. name \<noteq> [] \<and> name \<noteq> ''.'' \<and> name \<noteq> ''..'' \<and> CHR ''/'' \<notin> set name \<longrightarrow>
      pathJoin [dir, IMAGES_DIR, name] = base @ name"
proof -
  let ?X = "if dir = [] then ''images'' else dir @ ''/images''"
  let ?S = "foldl (normStep (hd ?X \<noteq> CHR ''/'')) [] (splitOn CHR ''/'' ?X)"
  let ?base = "(if hd ?X = CHR ''/'' then ''/'' else []) @
     (if ?S = [] then [] else joinWith ''/'' ?S @ ''/'')"
  have x: "?X \<noteq> []" by simp
  have "pathJoin [dir, IMAGES_DIR, name] = ?base @ name"
    if n: "name \<noteq> [] \<and> name \<noteq> ''.'' \<and> name \<noteq> ''..'' \<and> CHR ''/'' \<notin> set name" for name
  proof -
    from n have n': "name \<noteq> []" "name \<noteq> ''.''" "name \<noteq> ''..''" "CHR ''/'' \<notin> set name"
      by simp_all
    have "pathJoin [dir, IMAGES_DIR, name] = normalize (?X @ CHR ''/'' # name)"
      using pathJoin_file[OF n', of dir] by simp
    also have "\<dots> = ?base @ name"
      using normalize_file[OF x n'] by (simp only: append_assoc)
    finally show ?thesis .
  qed
  then show ?thesis by blast
qed

lemma slide_file_name:
  "''slide_'' @ showNat n @ ''_image.png'' \<noteq> []"
  "''slide_'' @ showNat n @ ''_image.png'' \<noteq> ''.''"
  "''slide_'' @ showNat n @ ''_image.png'' \<noteq> ''..''"
  "CHR ''/'' \<notin> set (''slide_'' @ showNat n @ ''_image.png'')"
proof -
  show "CHR ''/'' \<notin> set (''slide_'' @ showNat n @ ''_image.png'')"
    using showNat_digits[of "CHR ''/''" n] by (auto simp: isDigit_def)
qed simp_all

lemma imagePath_nat:
  "imagePath dir (JNum (showNat n)) =
     Inr (pathJoin [dir, IMAGES_DIR, ''slide_'' @ showNat n @ ''_image.png''])"
  by (simp add: imagePath_def bindE_def)

lemma imagePath_inj:
  assumes "imagePath dir (JNum (showNat m)) = imagePath dir (JNum (showNat n))"
  shows "m = n"
proof -
  from pathJoin_base[of dir] obtain base where
    b: "\<And>name. name \<noteq> [] \<and> name \<noteq> ''.'' \<and> name \<noteq> ''..'' \<and> CHR ''/'' \<notin> set name \<Longrightarrow>
      pathJoin [dir, IMAGES_DIR, name] = base @ name" by blast
  have "pathJoin [dir, IMAGES_DIR, ''slide_'' @ showNat m @ ''_image.png''] =
        pathJoin [dir, IMAGES_DIR, ''slide_'' @ showNat n @ ''_image.png'']"
    using assms by (simp only: imagePath_nat sum.inject)
  then have "base @ (''slide_'' @ showNat m @ ''_image.png'') =
             base @ (''slide_'' @ showNat n @ ''_image.png'')"
    using b[of "''slide_'' @ showNat m @ ''_image.png''"]
      b[of "''slide_'' @ showNat n @ ''_image.png''"] slide_file_name[of m] slide_file_name[of n]
    by (simp only: simp_thms)
  then have "''slide_'' @ showNat m @ ''_image.png'' = ''slide_'' @ showNat n @ ''_image.png''"
    by (simp only: same_append_eq)
  then have "showNat m @ ''_image.png'' = showNat n @ ''_image.png''"
    by (simp only: same_append_eq)
  then have "showNat m = showNat n" by (simp only: append_same_eq)
  then show ?thesis by (rule showNat_inj)
qed

lemma field_ownProps_no_index:
  assumes "\<exists>c\<in>set name. \<not> isDigit c"
  shows "field (ownProps v) name = readProp v name"
proof (cases v)
  case (JArr xs)
  have "name \<notin> set (map showNat [0..<length xs])"
    using showNat_not_name[OF assms] by auto
  then have m: "map_of (zip (map showNat [0..<length xs]) xs) name = None"
    using map_of_zip_is_None[of "map showNat [0..<length xs]" xs name] by simp
  show ?thesis unfolding JArr by (simp add: field_def m)
next
  case (JStr s)
  have "name \<notin> set (map showNat [0..<length s])"
    using showNat_not_name[OF assms] by auto
  then have m: "map_of (zip (map showNat [0..<length s]) (map (\<lambda>c. JStr [c]) s)) name = None"
    using map_of_zip_is_None[of "map showNat [0..<length s]" "map (\<lambda>c. JStr [c]) s" name]
    by simp
  show ?thesis unfolding JStr by (simp add: field_def m)
qed (simp_all add: field_def)

lemma name_not_digits:
  "\<exists>c\<in>set ''title''. \<not> isDigit c" "\<exists>c\<in>set ''text''. \<not> isDigit c"
  "\<exists>c\<in>set ''imagedescription''. \<not> isDigit c"
  by (simp_all add: isDigit_def)

section \<open>Validity and numbering of slide records\<close>

lemma made_record_fields:
  assumes "r = AList.update ''isValid'' (JBool b) (AList.update ''slideNumber'' n (ownProps s))"
  shows "field r ''isValid'' = JBool b" and "field r ''slideNumber'' = n"
    and "keepsContent r s"
proof -
  show "field r ''isValid'' = JBool b" unfolding assms by (simp add: field_update)
  show "field r ''slideNumber'' = n" unfolding assms by (simp add: field_update)
  have "field r ''title'' = field (ownProps s) ''title''"
    "field r ''text'' = field (ownProps s) ''text''"
    "field r ''imagedescription'' = field (ownProps s) ''imagedescription''"
    unfolding assms by (simp_all add: field_update)
  then show "keepsContent r s"
    unfolding keepsContent_def
    by (simp only: field_ownProps_no_index[OF name_not_digits(1)]
        field_ownProps_no_index[OF name_not_digits(2)]
        field_ownProps_no_index[OF name_not_digits(3)] simp_thms)
qed

lemma loaded_record:
  assumes "loadSlides (Inr (JArr ys)) = Inr deck" "k < length ys"
  shows "field (deck ! k) ''isValid'' = JBool (requiredTruthy (ys ! k))"
    and "field (deck ! k) ''slideNumber'' =
           (if truthy (readProp (ys ! k) ''slideNumber'') then readProp (ys ! k) ''slideNumber''
            else JNum (showNat (k + 1)))"
    and "keepsContent (deck ! k) (ys ! k)"
    and "length deck = length ys"
proof -
  from loadSlides_success[OF assms(1)] assms(2) have
    n: "\<not> nullish (ys ! k)" and r: "loadedRecord k (ys ! k) = Inr (deck ! k)"
    and l: "length deck = length ys" by auto
  have d: "deck ! k =
      AList.update ''isValid'' (JBool (requiredTruthy (ys ! k)))
        (AList.update ''slideNumber''
           (if truthy (readProp (ys ! k) ''slideNumber'') then readProp (ys ! k) ''slideNumber''
            else JNum (showNat (k + 1)))
           (ownProps (ys ! k)))"
    using r loadedRecord_value[OF n, of k] by (simp add: requiredTruthy_def)
  show "field (deck ! k) ''isValid'' = JBool (requiredTruthy (ys ! k))"
    by (rule made_record_fields(1)[OF d])
  show "field (deck ! k) ''slideNumber'' =
           (if truthy (readProp (ys ! k) ''slideNumber'') then readProp (ys ! k) ''slideNumber''
            else JNum (showNat (k + 1)))"
    by (rule made_record_fields(2)[OF d])
  show "keepsContent (deck ! k) (ys ! k)" by (rule made_record_fields(3)[OF d])
  show "length deck = length ys" by (rule l)
qed

lemma fresh_record:
  assumes "slideElements parsedResult = Inr xs" "slidesFromParsed parsedResult = Inr deck"
    "k < length xs"
  shows "field (deck ! k) ''isValid'' = JBool (requiredTruthy (xs ! k))"
    and "field (deck ! k) ''slideNumber'' = JNum (showNat (k + 1))"
    and "keepsContent (deck ! k) (xs ! k)"
    and "length deck = length xs"
proof -
  from slidesFromParsed_success[OF assms(2)] assms(1,3) have
    n: "\<not> nullish (xs ! k)" and r: "freshRecord k (xs ! k) = Inr (deck ! k)"
    and l: "length deck = length xs" by auto
  have d: "deck ! k =
      AList.update ''isValid'' (JBool (requiredTruthy (xs ! k)))
        (AList.update ''slideNumber'' (JNum (showNat (k + 1))) (ownProps (xs ! k)))"
    using r freshRecord_value[OF n, of k] by (simp add: requiredTruthy_def)
  show "field (deck ! k) ''isValid'' = JBool (requiredTruthy (xs ! k))"
    by (rule made_record_fields(1)[OF d])
  show "field (deck ! k) ''slideNumber'' = JNum (showNat (k + 1))"
    by (rule made_record_fields(2)[OF d])
  show "keepsContent (deck ! k) (xs ! k)" by (rule made_record_fields(3)[OF d])
  show "length deck = length xs" by (rule l)
qed

text \<open>
  C2, as amended: for every slide record, freshly parsed or loaded from the checkpoint,
  \<open>isValid\<close> is true if and only if the values of \<open>title\<close>, \<open>text\<close> and
  \<open>imagedescription\<close> are all truthy; for strings, that is non-empty as they stand (the
  check trims nothing, so a string of white space counts as non-empty). Every element,
  valid or not, is kept in the deck at its position with its title, text and image
  description.
\<close>

theorem isValid_iff_required_truthy:
  "(slideElements parsedResult = Inr xs \<and> slidesFromParsed parsedResult = Inr deck \<longrightarrow>
      length deck = length xs \<and>
      (\<forall>k<length xs. field (deck ! k) ''isValid'' = JBool (requiredTruthy (xs ! k)) \<and>
                      keepsContent (deck ! k) (xs ! k))) \<and>
   (loadSlides (Inr (JArr ys)) = Inr deck' \<longrightarrow>
      length deck' = length ys \<and>
      (\<forall>k<length ys. field (deck' ! k) ''isValid'' = JBool (requiredTruthy (ys ! k)) \<and>
                      keepsContent (deck' ! k) (ys ! k))) \<and>
   (requiredTruthy (JObj [(''title'', JStr t), (''text'', JStr x), (''imagedescription'', JStr d)])
      \<longleftrightarrow> t \<noteq> [] \<and> x \<noteq> [] \<and> d \<noteq> [])"
proof (intro conjI impI allI)
  assume a: "slideElements parsedResult = Inr xs \<and> slidesFromParsed parsedResult = Inr deck"
  then have e: "slideElements parsedResult = Inr xs" and s: "slidesFromParsed parsedResult = Inr deck"
    by simp_all
  from slidesFromParsed_success[OF s] e show "length deck = length xs" by auto
  fix k assume k: "k < length xs"
  show "field (deck ! k) ''isValid'' = JBool (requiredTruthy (xs ! k))"
    by (rule fresh_record(1)[OF e s k])
  show "keepsContent (deck ! k) (xs ! k)" by (rule fresh_record(3)[OF e s k])
next
  assume l: "loadSlides (Inr (JArr ys)) = Inr deck'"
  from loadSlides_success[OF l] show "length deck' = length ys" by auto
  fix k assume k: "k < length ys"
  show "field (deck' ! k) ''isValid'' = JBool (requiredTruthy (ys ! k))"
    by (rule loaded_record(1)[OF l k])
  show "keepsContent (deck' ! k) (ys ! k)" by (rule loaded_record(3)[OF l k])
next
  show "requiredTruthy (JObj [(''title'', JStr t), (''text'', JStr x), (''imagedescription'', JStr d)])
      \<longleftrightarrow> t \<noteq> [] \<and> x \<noteq> [] \<and> d \<noteq> []"
    by (simp add: requiredTruthy_def field_def)
qed

lemma example_parse:
  "slideElements (JObj [(''slides'', JObj [(''slide'',
      JArr [JObj [(''title'', JStr ''Tides''), (''text'', JStr ''Two a day''),
                  (''imagedescription'', JStr ''A harbour at dusk'')],
            JObj [(''title'', JStr ''Moon''), (''text'', JStr [])]])])]) =
   Inr [JObj [(''title'', JStr ''Tides''), (''text'', JStr ''Two a day''),
              (''imagedescription'', JStr ''A harbour at dusk'')],
        JObj [(''title'', JStr ''Moon''), (''text'', JStr [])]]"
  by (simp add: slideElements_def field_def Let_def)

lemma example_fresh:
  "slidesFromParsed (JObj [(''slides'', JObj [(''slide'',
      JArr [JObj [(''title'', JStr ''Tides''), (''text'', JStr ''Two a day''),
                  (''imagedescription'', JStr ''A harbour at dusk'')],
            JObj [(''title'', JStr ''Moon''), (''text'', JStr [])]])])]) =
   Inr [[(''title'', JStr ''Tides''), (''text'', JStr ''Two a day''),
         (''imagedescription'', JStr ''A harbour at dusk''),
         (''slideNumber'', JNum ''1''), (''isValid'', JBool True)],
        [(''title'', JStr ''Moon''), (''text'', JStr []),
         (''slideNumber'', JNum ''2''), (''isValid'', JBool False)]]"
  by (simp add: slidesFromParsed_def example_parse bindE_def freshRecord_def validityOf_def
      getProp_def nullish_def field_def showNat_small)

lemma example_load:
  "loadSlides (Inr (JArr
      [JObj [(''title'', JStr ''Tides''), (''text'', JStr ''Two a day''),
             (''imagedescription'', JStr ''A harbour at dusk''), (''slideNumber'', JNum ''1''),
             (''isValid'', JBool True)],
       JObj [(''title'', JStr ''Moon''), (''text'', JStr []), (''slideNumber'', JNum ''2''),
             (''isValid'', JBool True)]])) =
   Inr [[(''title'', JStr ''Tides''), (''text'', JStr ''Two a day''),
         (''imagedescription'', JStr ''A harbour at dusk''),
         (''slideNumber'', JNum ''1''), (''isValid'', JBool True)],
        [(''title'', JStr ''Moon''), (''text'', JStr []),
         (''slideNumber'', JNum ''2''), (''isValid'', JBool False)]]"
  by (simp add: loadSlides_def bindE_def loadedRecord_def validityOf_def
      getProp_def nullish_def field_def showNat_small)

theorem isValid_iff_required_truthy_witness:
  "length [[(''title'', JStr ''Tides''), (''text'', JStr ''Two a day''),
            (''imagedescription'', JStr ''A harbour at dusk''),
            (''slideNumber'', JNum ''1''), (''isValid'', JBool True)],
           [(''title'', JStr ''Moon''), (''text'', JStr []),
            (''slideNumber'', JNum ''2''), (''isValid'', JBool False)]] = (2::nat) \<and>
   field [(''title'', JStr ''Moon''), (''text'', JStr []),
          (''slideNumber'', JNum ''2''), (''isValid'', JBool False)] ''isValid'' =
     JBool (requiredTruthy (JObj [(''title'', JStr ''Moon''), (''text'', JStr [])])) \<and>
   field [(''title'', JStr ''Moon''), (''text'', JStr []),
          (''slideNumber'', JNum ''2''), (''isValid'', JBool False)] ''isValid'' =
     JBool (requiredTruthy (JObj [(''title'', JStr ''Moon''), (''text'', JStr []),
                                  (''slideNumber'', JNum ''2''), (''isValid'', JBool True)]))"
proof -
  let ?p = "JObj [(''slides'', JObj [(''slide'',
      JArr [JObj [(''title'', JStr ''Tides''), (''text'', JStr ''Two a day''),
                  (''imagedescription'', JStr ''A harbour at dusk'')],
            JObj [(''title'', JStr ''Moon''), (''text'', JStr [])]])])]"
  let ?xs = "[JObj [(''title'', JStr ''Tides''), (''text'', JStr ''Two a day''),
              (''imagedescription'', JStr ''A harbour at dusk'')],
        JObj [(''title'', JStr ''Moon''), (''text'', JStr [])]]"
  let ?ys = "[JObj [(''title'', JStr ''Tides''), (''text'', JStr ''Two a day''),
             (''imagedescription'', JStr ''A harbour at dusk''), (''slideNumber'', JNum ''1''),
             (''isValid'', JBool True)],
       JObj [(''title'', JStr ''Moon''), (''text'', JStr []), (''slideNumber'', JNum ''2''),
             (''isValid'', JBool True)]]"
  let ?deck = "[[(''title'', JStr ''Tides''), (''text'', JStr ''Two a day''),
         (''imagedescription'', JStr ''A harbour at dusk''),
         (''slideNumber'', JNum ''1''), (''isValid'', JBool True)],
        [(''title'', JStr ''Moon''), (''text'', JStr []),
         (''slideNumber'', JNum ''2''), (''isValid'', JBool False)]]"
  note t = isValid_iff_required_truthy[of ?p ?xs ?deck ?ys ?deck]
  from t have 1: "length ?deck = length ?xs \<and>
      (\<forall>k<length ?xs. field (?deck ! k) ''isValid'' = JBool (requiredTruthy (?xs ! k)) \<and>
                      keepsContent (?deck ! k) (?xs ! k))"
    using example_parse example_fresh by blast
  from t have 2: "length ?deck = length ?ys \<and>
      (\<forall>k<length ?ys. field (?deck ! k) ''isValid'' = JBool (requiredTruthy (?ys ! k)) \<and>
                      keepsContent (?deck ! k) (?ys ! k))"
    using example_load by blast
  from 1[THEN conjunct2, rule_format, of 1]
  have "field (?deck ! 1) ''isValid'' = JBool (requiredTruthy (?xs ! 1))" by simp
  moreover from 2[THEN conjunct2, rule_format, of 1]
  have "field (?deck ! 1) ''isValid'' = JBool (requiredTruthy (?ys ! 1))" by simp
  ultimately show ?thesis by simp
qed

text \<open>
  The claim as stated fails on a checkpoint whose title is a single space: the title is
  empty after trimming, and the loaded record is valid.
\<close>

theorem isValid_iff_required_truthy_counterexample:
  "trim '' '' = [] \<and>
   loadSlides (Inr (JArr [JObj [(''title'', JStr '' ''), (''text'', JStr ''Two a day''),
                                (''imagedescription'', JStr ''A harbour at dusk'')]])) =
     Inr [[(''title'', JStr '' ''), (''text'', JStr ''Two a day''),
           (''imagedescription'', JStr ''A harbour at dusk''),
           (''slideNumber'', JNum ''1''), (''isValid'', JBool True)]]"
  by (simp add: trim_def isJsSpace_def loadSlides_def bindE_def loadedRecord_def validityOf_def
      getProp_def nullish_def field_def showNat_small)

text \<open>
  C9: on loading a checkpoint the validity check reads the image description under the
  key \<open>imagedescription\<close>. A loaded record that has that key is valid exactly when its
  title, its text and the value under that key are truthy; a loaded record without it
  (one that stores the description under \<open>imageDescription\<close> only, say) is invalid.
\<close>

theorem loaded_reads_lowercase_key:
  "loadSlides (Inr (JArr ys)) = Inr deck \<and> k < length ys \<and> ys ! k = JObj kvs \<longrightarrow>
     (map_of kvs ''imagedescription'' = None \<longrightarrow> field (deck ! k) ''isValid'' = JBool False) \<and>
     (\<forall>v. map_of kvs ''imagedescription'' = Some v \<longrightarrow>
          field (deck ! k) ''isValid'' =
            JBool (truthy (field kvs ''title'') \<and> truthy (field kvs ''text'') \<and> truthy v))"
proof (intro impI)
  assume a: "loadSlides (Inr (JArr ys)) = Inr deck \<and> k < length ys \<and> ys ! k = JObj kvs"
  then have "field (deck ! k) ''isValid'' = JBool (requiredTruthy (JObj kvs))"
    using loaded_record(1)[of ys deck k] by simp
  then show "(map_of kvs ''imagedescription'' = None \<longrightarrow>
       field (deck ! k) ''isValid'' = JBool False) \<and>
     (\<forall>v. map_of kvs ''imagedescription'' = Some v \<longrightarrow>
          field (deck ! k) ''isValid'' =
            JBool (truthy (field kvs ''title'') \<and> truthy (field kvs ''text'') \<and> truthy v))"
    by (simp add: requiredTruthy_def field_def)
qed

lemma example_camelCase:
  "loadSlides (Inr (JArr
      [JObj [(''title'', JStr ''Tides''), (''text'', JStr ''Two a day''),
             (''imageDescription'', JStr ''A harbour at dusk'')]])) =
   Inr [[(''title'', JStr ''Tides''), (''text'', JStr ''Two a day''),
         (''imageDescription'', JStr ''A harbour at dusk''),
         (''slideNumber'', JNum ''1''), (''isValid'', JBool False)]]"
  by (simp add: loadSlides_def bindE_def loadedRecord_def validityOf_def
      getProp_def nullish_def field_def showNat_small)

theorem loaded_reads_lowercase_key_witness:
  "field [(''title'', JStr ''Tides''), (''text'', JStr ''Two a day''),
          (''imageDescription'', JStr ''A harbour at dusk''),
          (''slideNumber'', JNum ''1''), (''isValid'', JBool False)] ''isValid'' = JBool False"
proof -
  have m: "map_of [(''title'', JStr ''Tides''), (''text'', JStr ''Two a day''),
             (''imageDescription'', JStr ''A harbour at dusk'')] ''imagedescription'' = None"
    by simp
  from loaded_reads_lowercase_key[of
      "[JObj [(''title'', JStr ''Tides''), (''text'', JStr ''Two a day''),
             (''imageDescription'', JStr ''A harbour at dusk'')]]"
      "[[(''title'', JStr ''Tides''), (''text'', JStr ''Two a day''),
         (''imageDescription'', JStr ''A harbour at dusk''),
         (''slideNumber'', JNum ''1''), (''isValid'', JBool False)]]" 0
      "[(''title'', JStr ''Tides''), (''text'', JStr ''Two a day''),
             (''imageDescription'', JStr ''A harbour at dusk'')]"]
  show ?thesis using example_camelCase m by simp
qed

section \<open>Loading the checkpoint\<close>

lemma loadSlides_fails_array:
  "xs \<noteq> [] \<Longrightarrow> (\<exists>e. loadSlides (Inr (JArr xs)) = Inl e) \<longleftrightarrow> (\<exists>x\<in>set xs. nullish x)"
proof
  assume ne: "xs \<noteq> []" and f: "\<exists>e. loadSlides (Inr (JArr xs)) = Inl e"
  show "\<exists>x\<in>set xs. nullish x"
  proof (rule ccontr)
    assume "\<not> (\<exists>x\<in>set xs. nullish x)"
    then have "\<forall>x\<in>set xs. \<not> nullish x" by simp
    from loadSlides_no_null[OF ne this] f show False by auto
  qed
next
  assume "\<exists>x\<in>set xs. nullish x"
  then show "\<exists>e. loadSlides (Inr (JArr xs)) = Inl e" using loadSlides_null by blast
qed

lemma loadSlides_fails_cases:
  "(\<exists>e. loadSlides stored = Inl e) \<longleftrightarrow>
     (case stored of
        Inl e \<Rightarrow> True
      | Inr v \<Rightarrow> (case v of JArr xs \<Rightarrow> xs = [] \<or> (\<exists>x\<in>set xs. nullish x) | _ \<Rightarrow> True))"
proof (cases stored)
  case (Inl e)
  then show ?thesis by (simp add: loadSlides_def bindE_def)
next
  case (Inr v)
  show ?thesis
  proof (cases v)
    case (JArr xs)
    show ?thesis
    proof (cases "xs = []")
      case True
      then show ?thesis using Inr JArr by (simp add: loadSlides_def bindE_def)
    next
      case False
      then show ?thesis using Inr JArr loadSlides_fails_array[OF False] by simp
    qed
  qed (use Inr in \<open>simp_all add: loadSlides_def bindE_def\<close>)
qed

lemma isObject_not_nullish: "isObject x \<Longrightarrow> \<not> nullish x"
  by (cases x) (simp_all add: isObject_def nullish_def)

lemma processSlides_events:
  "events (processSlides w evs slides) = evs \<or>
   events (processSlides w evs slides) = evs @ [MakeImagesDir]"
  by (simp add: processSlides_def Let_def split: option.splits)

text \<open>
  C7, as amended: loading the checkpoint fails, and the run stops with exit code 1 and
  nothing else done, if and only if the file cannot be read or parsed, or its content is
  not an array, or is an empty array, or has a \<open>null\<close> element. A deck of 0 elements
  fails; a deck of 1 or more objects loads, each element giving one record, and the text
  model is not called.
\<close>

theorem loadSlides_fails_iff:
  "((\<exists>e. loadSlides stored = Inl e) \<longleftrightarrow>
      (case stored of
         Inl e \<Rightarrow> True
       | Inr v \<Rightarrow> (case v of JArr xs \<Rightarrow> xs = [] \<or> (\<exists>x\<in>set xs. nullish x) | _ \<Rightarrow> True))) \<and>
   (slidesJsonExists w \<and> (\<exists>e. loadSlides (readSlidesJson w) = Inl e) \<longrightarrow>
      main w = \<lparr>exitCode = 1, events = [], tasks = [], summary = []\<rparr>) \<and>
   loadSlides (Inr (JArr [])) = Inl InvalidOrEmptyStore \<and>
   (zs \<noteq> [] \<and> (\<forall>z\<in>set zs. isObject z) \<longrightarrow>
      (\<exists>deck. loadSlides (Inr (JArr zs)) = Inr deck \<and> length deck = length zs)) \<and>
   (slidesJsonExists w' \<and> loadSlides (readSlidesJson w') = Inr deck' \<longrightarrow>
      main w' = processSlides w' [] deck' \<and> (\<forall>r. ChatRequest r \<notin> set (events (main w'))))"
proof (intro conjI impI)
  show "(\<exists>e. loadSlides stored = Inl e) \<longleftrightarrow>
      (case stored of
         Inl e \<Rightarrow> True
       | Inr v \<Rightarrow> (case v of JArr xs \<Rightarrow> xs = [] \<or> (\<exists>x\<in>set xs. nullish x) | _ \<Rightarrow> True))"
    by (rule loadSlides_fails_cases)
next
  assume "slidesJsonExists w \<and> (\<exists>e. loadSlides (readSlidesJson w) = Inl e)"
  then show "main w = \<lparr>exitCode = 1, events = [], tasks = [], summary = []\<rparr>"
    by (auto simp: main_def obtainSlides_def)
next
  show "loadSlides (Inr (JArr [])) = Inl InvalidOrEmptyStore"
    by (simp add: loadSlides_def bindE_def)
next
  assume a: "zs \<noteq> [] \<and> (\<forall>z\<in>set zs. isObject z)"
  then have "\<forall>z\<in>set zs. \<not> nullish z" using isObject_not_nullish by blast
  with a obtain deck where d: "loadSlides (Inr (JArr zs)) = Inr deck"
    using loadSlides_no_null[of zs] by blast
  from loadSlides_success[OF d] have "length deck = length zs" by auto
  with d show "\<exists>deck. loadSlides (Inr (JArr zs)) = Inr deck \<and> length deck = length zs" by blast
next
  assume a: "slidesJsonExists w' \<and> loadSlides (readSlidesJson w') = Inr deck'"
  then show m: "main w' = processSlides w' [] deck'"
    by (simp add: main_def obtainSlides_def)
  show "\<forall>r. ChatRequest r \<notin> set (events (main w'))"
    unfolding m using processSlides_events[of w' "[]" deck'] by auto
qed

theorem loadSlides_fails_iff_witness:
  "(\<exists>e. loadSlides (Inr (JArr [JNull])) = Inl e) \<and>
   main (bareWorld\<lparr>slidesJsonExists := True, readSlidesJson := Inr (JArr [JNull])\<rparr>) =
     \<lparr>exitCode = 1, events = [], tasks = [], summary = []\<rparr> \<and>
   (\<exists>deck. loadSlides (Inr (JArr [JObj [(''title'', JStr ''Tides'')]])) = Inr deck \<and>
           length deck = length [JObj [(''title'', JStr ''Tides'')]]) \<and>
   main (bareWorld\<lparr>slidesJsonExists := True,
                    readSlidesJson := Inr (JArr [JObj [(''title'', JStr ''Tides'')]])\<rparr>) =
     processSlides (bareWorld\<lparr>slidesJsonExists := True,
                    readSlidesJson := Inr (JArr [JObj [(''title'', JStr ''Tides'')]])\<rparr>) []
       [[(''title'', JStr ''Tides''), (''slideNumber'', JNum ''1''), (''isValid'', JBool False)]]"
proof -
  let ?w = "bareWorld\<lparr>slidesJsonExists := True, readSlidesJson := Inr (JArr [JNull])\<rparr>"
  let ?w' = "bareWorld\<lparr>slidesJsonExists := True,
                    readSlidesJson := Inr (JArr [JObj [(''title'', JStr ''Tides'')]])\<rparr>"
  let ?d = "[[(''title'', JStr ''Tides''), (''slideNumber'', JNum ''1''), (''isValid'', JBool False)]]"
  note t = loadSlides_fails_iff[of "Inr (JArr [JNull])" ?w "[JObj [(''title'', JStr ''Tides'')]]"
      ?w' ?d]
  have l: "loadSlides (Inr (JArr [JObj [(''title'', JStr ''Tides'')]])) = Inr ?d"
    by (simp add: loadSlides_def bindE_def loadedRecord_def validityOf_def
      getProp_def nullish_def field_def showNat_small)
  from t have 1: "\<exists>e. loadSlides (Inr (JArr [JNull])) = Inl e" by (simp add: nullish_def)
  from t 1 have 2: "main ?w = \<lparr>exitCode = 1, events = [], tasks = [], summary = []\<rparr>"
    by simp
  from t have 3: "\<exists>deck. loadSlides (Inr (JArr [JObj [(''title'', JStr ''Tides'')]])) = Inr deck \<and>
           length deck = length [JObj [(''title'', JStr ''Tides'')]]"
    by (simp add: isObject_def)
  from t l have 4: "main ?w' = processSlides ?w' [] ?d" by simp
  from 1 2 3 4 show ?thesis by blast
qed

text \<open>
  The claim as stated fails on the checkpoint \<open>[5]\<close>: its only element is a number, not a
  slide, yet loading succeeds and the run ends with exit code 0.
\<close>

theorem loadSlides_fails_iff_counterexample:
  "\<not> isObject (JNum ''5'') \<and>
   loadSlides (Inr (JArr [JNum ''5''])) = Inr [[(''slideNumber'', JNum ''1''), (''isValid'', JBool False)]] \<and>
   exitCode (main (bareWorld\<lparr>slidesJsonExists := True, readSlidesJson := Inr (JArr [JNum ''5''])\<rparr>)) = 0"
proof -
  have l: "loadSlides (Inr (JArr [JNum ''5''])) =
      Inr [[(''slideNumber'', JNum ''1''), (''isValid'', JBool False)]]"
    by (simp add: loadSlides_def bindE_def loadedRecord_def validityOf_def
      getProp_def nullish_def field_def showNat_small)
  have "exitCode (main (bareWorld\<lparr>slidesJsonExists := True,
      readSlidesJson := Inr (JArr [JNum ''5''])\<rparr>)) = 0"
    by (simp add: main_def obtainSlides_def l processSlides_def isValid_def field_def)
  then show ?thesis using l by (simp add: isObject_def)
qed

section \<open>Facts about the run\<close>

lemma writtenPaths_append: "writtenPaths (a @ b) = writtenPaths a @ writtenPaths b"
  by (induction a rule: writtenPaths.induct) simp_all

lemma attempt_writes: "set (writtenPaths (snd (attempt api wr imagePrompt path j))) \<subseteq> {path}"
  by (simp add: attempt_def Let_def split: api_result.splits option.splits)

lemma retryLoop_writes:
  "set (writtenPaths (snd (retryLoop api wr imagePrompt path j))) \<subseteq> {path}"
proof (induction api wr imagePrompt path j rule: retryLoop.induct)
  case (1 api wr imagePrompt path retries)
  show ?case
  proof (cases "retries \<le> MAX_IMAGE_RETRIES")
    case False
    then show ?thesis by (simp add: retryLoop.simps[of api wr imagePrompt path retries])
  next
    case True
    obtain res evs where a: "attempt api wr imagePrompt path retries = (res, evs)"
      by (cases "attempt api wr imagePrompt path retries")
    have w: "set (writtenPaths evs) \<subseteq> {path}"
      using attempt_writes[of api wr imagePrompt path retries] a by simp
    show ?thesis
    proof (cases res)
      case (Inr p)
      then show ?thesis
        using True a w by (simp add: retryLoop.simps[of api wr imagePrompt path retries])
    next
      case (Inl error)
      show ?thesis
      proof (cases "retries + 1 > MAX_IMAGE_RETRIES")
        case True
        then show ?thesis
          using \<open>retries \<le> MAX_IMAGE_RETRIES\<close> a w Inl
          by (simp add: retryLoop.simps[of api wr imagePrompt path retries])
      next
        case False
        have "set (writtenPaths (snd (retryLoop api wr imagePrompt path (retries + 1)))) \<subseteq> {path}"
          using "1.IH"[OF True a[symmetric] Inl False] by simp
        then show ?thesis
          using True a w Inl False
          by (simp add: retryLoop.simps[of api wr imagePrompt path retries] Let_def
              writtenPaths_append)
      qed
    qed
  qed
qed

lemma taskOf_converts:
  "converts (field slide ''slideNumber'') \<Longrightarrow>
   \<exists>path. imagePath (scriptDir w) (field slide ''slideNumber'') = Inr path \<and>
     taskOf w k slide =
       Inr (retryLoop (imageApi w k) (imageWrite w k) (field slide ''imagedescription'') path 0)"
  by (auto simp: taskOf_def generateImageWithRetry_def converts_def imagePath_def bindE_def
      split: sum.splits)

lemma taskOf_rejects:
  "\<not> converts (field slide ''slideNumber'') \<Longrightarrow> \<exists>e. taskOf w k slide = Inl e"
  by (auto simp: taskOf_def generateImageWithRetry_def converts_def imagePath_def bindE_def
      split: sum.splits)

lemma taskOf_isl: "isl (taskOf w k slide) \<longleftrightarrow> \<not> converts (field slide ''slideNumber'')"
proof (cases "converts (field slide ''slideNumber'')")
  case True
  then show ?thesis using taskOf_converts[of slide w k] by auto
next
  case False
  then show ?thesis using taskOf_rejects[of slide w k] by auto
qed

lemma taskOf_writes:
  "\<forall>p\<in>set (taskWrites (settled (taskOf w k slide))).
     imagePath (scriptDir w) (field slide ''slideNumber'') = Inr p"
proof (cases "converts (field slide ''slideNumber'')")
  case True
  from taskOf_converts[OF True, of w k] obtain path where
    p: "imagePath (scriptDir w) (field slide ''slideNumber'') = Inr path" and
    t: "taskOf w k slide =
       Inr (retryLoop (imageApi w k) (imageWrite w k) (field slide ''imagedescription'') path 0)"
    by blast
  have "set (taskWrites (settled (taskOf w k slide))) \<subseteq> {path}"
    using retryLoop_writes[of "imageApi w k" "imageWrite w k" "field slide ''imagedescription''" path 0]
    by (cases "retryLoop (imageApi w k) (imageWrite w k) (field slide ''imagedescription'') path 0")
      (simp add: t settled_def taskWrites_def)
  then show ?thesis using p by auto
next
  case False
  then show ?thesis
    using taskOf_rejects[of slide w k] by (auto simp: settled_def taskWrites_def)
qed

text \<open>The promises that main collects, in the order of the valid slides.\<close>

lemma promises_nth:
  "k < length valid \<Longrightarrow>
   map (\<lambda>(k, slide). taskOf w k slide) (enumerate 0 valid) ! k = taskOf w k (valid ! k)"
  by (simp add: nth_enumerate_eq)

lemma promises_reject_iff:
  "list_ex isl (map (\<lambda>(k, slide). taskOf w k slide) (enumerate 0 valid)) \<longleftrightarrow>
   \<not> list_all (\<lambda>slide. converts (field slide ''slideNumber'')) valid"
proof -
  have "list_ex isl (map (\<lambda>(k, slide). taskOf w k slide) (enumerate 0 valid)) \<longleftrightarrow>
        (\<exists>p\<in>set (enumerate 0 valid). \<not> converts (field (snd p) ''slideNumber''))"
    by (simp add: list_ex_iff taskOf_isl split_beta)
  also have "\<dots> \<longleftrightarrow> (\<exists>slide\<in>set valid. \<not> converts (field slide ''slideNumber''))"
  proof
    assume "\<exists>p\<in>set (enumerate 0 valid). \<not> converts (field (snd p) ''slideNumber'')"
    then obtain p where p: "p \<in> set (enumerate 0 valid)"
      and c: "\<not> converts (field (snd p) ''slideNumber'')" by blast
    from p have "fst p < length valid" "valid ! fst p = snd p"
      by (simp_all add: in_set_enumerate_eq)
    then have "snd p \<in> set valid" by (metis nth_mem)
    with c show "\<exists>slide\<in>set valid. \<not> converts (field slide ''slideNumber'')" by blast
  next
    assume "\<exists>slide\<in>set valid. \<not> converts (field slide ''slideNumber'')"
    then obtain slide where m: "slide \<in> set valid"
      and c: "\<not> converts (field slide ''slideNumber'')" by blast
    from m obtain k where k: "k < length valid" "valid ! k = slide"
      by (auto simp: in_set_conv_nth)
    then have "(k, slide) \<in> set (enumerate 0 valid)" by (simp add: in_set_enumerate_eq)
    with c show "\<exists>p\<in>set (enumerate 0 valid). \<not> converts (field (snd p) ''slideNumber'')"
      by force
  qed
  also have "\<dots> \<longleftrightarrow> \<not> list_all (\<lambda>slide. converts (field slide ''slideNumber'')) valid"
    by (simp add: list_all_iff)
  finally show ?thesis .
qed

lemma processSlides_unfold:
  "processSlides w evs slides =
     (if filter isValid slides = [] then \<lparr>exitCode = 0, events = evs, tasks = [], summary = []\<rparr>
      else if \<not> dirAvailable w then
        \<lparr>exitCode = 1, events = evs @ [MakeImagesDir], tasks = [], summary = []\<rparr>
      else if \<not> numbersConvert slides then
        \<lparr>exitCode = 1, events = evs @ (if imagesDirExists w then [] else [MakeImagesDir]),
         tasks = map abandoned
           (map (\<lambda>(k, slide). taskOf w k slide) (enumerate 0 (filter isValid slides))),
         summary = []\<rparr>
      else
        \<lparr>exitCode = 0, events = evs @ (if imagesDirExists w then [] else [MakeImagesDir]),
         tasks = map settled
           (map (\<lambda>(k, slide). taskOf w k slide) (enumerate 0 (filter isValid slides))),
         summary =
           [TotalValid (length (filter isValid slides)),
            Generated (length (filter succeeded (map settled
              (map (\<lambda>(k, slide). taskOf w k slide) (enumerate 0 (filter isValid slides))))))] @
           (if length (filter isValid slides) - length (filter succeeded (map settled
              (map (\<lambda>(k, slide). taskOf w k slide) (enumerate 0 (filter isValid slides))))) > 0
            then [FailedCount (length (filter isValid slides) - length (filter succeeded
              (map settled (map (\<lambda>(k, slide). taskOf w k slide)
                (enumerate 0 (filter isValid slides))))))]
            else [])\<rparr>)"
proof -
  have t: "(\<lambda>(k, slide). generateImageWithRetry (scriptDir w) (imageApi w k) (imageWrite w k)
              (field slide ''imagedescription'') (field slide ''text'')
              (field slide ''slideNumber'')) = (\<lambda>(k, slide). taskOf w k slide)"
    by (simp add: taskOf_def)
  have r: "list_ex isl (map (\<lambda>(k, slide). taskOf w k slide)
        (enumerate 0 (filter isValid slides))) \<longleftrightarrow> \<not> numbersConvert slides"
    by (simp add: promises_reject_iff numbersConvert_def)
  show ?thesis
    unfolding processSlides_def Let_def t r
    by (cases "imagesDirExists w"; cases "mkdirImages w") (simp_all add: dirAvailable_def)
qed

lemma tasks_dispatched:
  assumes "filter isValid slides \<noteq> []" "dirAvailable w" "numbersConvert slides"
  shows "length (tasks (processSlides w evs slides)) = length (filter isValid slides)"
    and "k < length (filter isValid slides) \<Longrightarrow>
         tasks (processSlides w evs slides) ! k = settled (taskOf w k (filter isValid slides ! k))"
  using assms by (simp_all add: processSlides_unfold nth_enumerate_eq)

lemma tasks_settled:
  assumes "filter isValid slides \<noteq> []" "dirAvailable w" "numbersConvert slides"
    "k < length (filter isValid slides)"
  shows "\<exists>outcome log. tasks (processSlides w evs slides) ! k = Settled outcome log"
proof -
  have "filter isValid slides ! k \<in> set (filter isValid slides)"
    using assms(4) by (rule nth_mem)
  then have "converts (field (filter isValid slides ! k) ''slideNumber'')"
    using assms(3) unfolding numbersConvert_def list_all_iff by blast
  from taskOf_converts[OF this, of w k] obtain r where
    "taskOf w k (filter isValid slides ! k) = Inr r" by blast
  then show ?thesis
    using tasks_dispatched(2)[OF assms] by (cases r) (simp add: settled_def)
qed

lemma tasks_none:
  "filter isValid slides = [] \<or> \<not> dirAvailable w \<Longrightarrow> tasks (processSlides w evs slides) = []"
  by (auto simp: processSlides_unfold)

lemma tasks_length:
  "tasks (processSlides w evs slides) = [] \<or>
   length (tasks (processSlides w evs slides)) = length (filter isValid slides)"
  by (simp add: processSlides_unfold)

lemma tasks_nth:
  assumes "k < length (tasks (processSlides w evs slides))"
  shows "tasks (processSlides w evs slides) ! k = settled (taskOf w k (filter isValid slides ! k)) \<or>
         tasks (processSlides w evs slides) ! k = abandoned (taskOf w k (filter isValid slides ! k))"
proof -
  have "tasks (processSlides w evs slides) \<noteq> []" using assms by auto
  then have k: "k < length (filter isValid slides)"
    using assms tasks_length[of w evs slides] by simp
  show ?thesis
    using assms k by (auto simp: processSlides_unfold nth_enumerate_eq split: if_splits)
qed

lemma summary_dispatched:
  assumes "filter isValid slides \<noteq> []" "dirAvailable w" "numbersConvert slides"
  shows "summary (processSlides w evs slides) =
     (if length (filter succeeded (tasks (processSlides w evs slides)))
          < length (filter isValid slides)
      then [TotalValid (length (filter isValid slides)),
            Generated (length (filter succeeded (tasks (processSlides w evs slides)))),
            FailedCount (length (filter isValid slides) -
              length (filter succeeded (tasks (processSlides w evs slides))))]
      else [TotalValid (length (filter isValid slides)),
            Generated (length (filter succeeded (tasks (processSlides w evs slides))))])"
  using assms by (simp add: processSlides_unfold)

lemma rejected_run:
  assumes "filter isValid slides \<noteq> []" "dirAvailable w" "\<not> numbersConvert slides"
  shows "exitCode (processSlides w evs slides) = 1"
    and "summary (processSlides w evs slides) = []"
    and "\<forall>t\<in>set (tasks (processSlides w evs slides)). t = CutShort \<or> (\<exists>e. t = Rejected e)"
  using assms
  by (auto simp: processSlides_unfold abandoned_def split: sum.splits)

lemma exitCode_processSlides:
  "exitCode (processSlides w evs slides) =
     (if filter isValid slides = [] \<or> (dirAvailable w \<and> numbersConvert slides) then 0 else 1)"
  by (simp add: processSlides_unfold)

lemma generateSlides_image_free:
  "generateSlidesFromResearch (w\<lparr>imageApi := api, imageWrite := wr\<rparr>) research =
   generateSlidesFromResearch w research"
  by (simp add: generateSlidesFromResearch_def Let_def
      cong: sum.case_cong option.case_cong if_cong)

lemma obtainSlides_image_free:
  "obtainSlides (w\<lparr>imageApi := api, imageWrite := wr\<rparr>) = obtainSlides w"
  by (simp add: obtainSlides_def generateSlides_image_free cong: sum.case_cong)

lemma main_obtained:
  "obtainSlides w = (Some slides, evs) \<Longrightarrow> main w = processSlides w evs slides"
  by (simp add: main_def)

lemma main_not_obtained:
  "fst (obtainSlides w) = None \<Longrightarrow> exitCode (main w) = 1"
  by (cases "obtainSlides w") (simp add: main_def)

text \<open>In a freshly parsed deck every slide number is a position, which converts.\<close>

lemma fresh_number:
  assumes "slidesFromParsed parsedResult = Inr deck" "k < length deck"
  shows "field (deck ! k) ''slideNumber'' = JNum (showNat (k + 1))"
proof -
  from slidesFromParsed_success[OF assms(1)] obtain xs where
    e: "slideElements parsedResult = Inr xs" and l: "length deck = length xs" by blast
  show ?thesis
    by (rule fresh_record(2)[OF e assms(1)]) (use assms(2) l in simp)
qed

lemma fresh_numbers_convert:
  assumes "slidesFromParsed parsedResult = Inr deck"
  shows "numbersConvert deck"
proof -
  have "converts (field slide ''slideNumber'')" if "slide \<in> set deck" for slide
  proof -
    from that obtain k where "k < length deck" "deck ! k = slide"
      by (auto simp: in_set_conv_nth)
    then show ?thesis using fresh_number[OF assms, of k] by (auto simp: converts_def)
  qed
  then show ?thesis by (simp add: numbersConvert_def list_all_iff)
qed

section \<open>Slide numbers and file names\<close>

lemma fresh_paths_distinct:
  assumes "slidesFromParsed parsedResult = Inr deck"
  shows "distinct (map (\<lambda>r. imagePath dir (field r ''slideNumber'')) deck)"
proof -
  have "imagePath dir (field (deck ! i) ''slideNumber'') \<noteq>
        imagePath dir (field (deck ! j) ''slideNumber'')"
    if "i < length deck" "j < length deck" "i \<noteq> j" for i j
  proof
    assume "imagePath dir (field (deck ! i) ''slideNumber'') =
            imagePath dir (field (deck ! j) ''slideNumber'')"
    then have "imagePath dir (JNum (showNat (i + 1))) = imagePath dir (JNum (showNat (j + 1)))"
      by (simp only: fresh_number[OF assms that(1)] fresh_number[OF assms that(2)])
    then have "i + 1 = j + 1" by (rule imagePath_inj)
    then show False using that(3) by simp
  qed
  then show ?thesis by (simp add: distinct_conv_nth)
qed

lemma task_writes:
  assumes "k < length (tasks (processSlides w evs slides))"
  shows "Inr ` set (taskWrites (tasks (processSlides w evs slides) ! k)) \<subseteq>
           {imagePath (scriptDir w) (field (filter isValid slides ! k) ''slideNumber'')}"
proof -
  from tasks_nth[OF assms] show ?thesis
  proof
    assume "tasks (processSlides w evs slides) ! k =
            settled (taskOf w k (filter isValid slides ! k))"
    then show ?thesis
      using taskOf_writes[of w k "filter isValid slides ! k"] by auto
  next
    assume "tasks (processSlides w evs slides) ! k =
            abandoned (taskOf w k (filter isValid slides ! k))"
    then show ?thesis by (simp add: abandoned_def taskWrites_def split: sum.splits)
  qed
qed

lemma fresh_tasks_disjoint:
  assumes "slidesFromParsed parsedResult = Inr deck"
    and "j < k" "k < length (tasks (processSlides w evs deck))"
  shows "set (taskWrites (tasks (processSlides w evs deck) ! j)) \<inter>
         set (taskWrites (tasks (processSlides w evs deck) ! k)) = {}"
proof -
  let ?f = "\<lambda>r. imagePath (scriptDir w) (field r ''slideNumber'')"
  let ?valid = "filter isValid deck"
  have t: "tasks (processSlides w evs deck) \<noteq> []" using assms(3) by auto
  then have kv: "k < length ?valid" using assms(3) tasks_length[of w evs deck] by simp
  have "distinct (map ?f ?valid)"
    using fresh_paths_distinct[OF assms(1)] by (rule distinct_map_filter)
  then have "map ?f ?valid ! j \<noteq> map ?f ?valid ! k"
    using assms(2) kv by (simp add: nth_eq_iff_index_eq del: nth_map)
  then have ne: "?f (?valid ! j) \<noteq> ?f (?valid ! k)" using assms(2) kv by simp
  have a: "Inr ` set (taskWrites (tasks (processSlides w evs deck) ! j)) \<subseteq> {?f (?valid ! j)}"
    by (rule task_writes) (use assms(2,3) in simp)
  have b: "Inr ` set (taskWrites (tasks (processSlides w evs deck) ! k)) \<subseteq> {?f (?valid ! k)}"
    by (rule task_writes[OF assms(3)])
  have False
    if "p \<in> set (taskWrites (tasks (processSlides w evs deck) ! j))"
      "p \<in> set (taskWrites (tasks (processSlides w evs deck) ! k))" for p
  proof -
    have "Inr p = ?f (?valid ! j)" using a that(1) by blast
    moreover have "Inr p = ?f (?valid ! k)" using b that(2) by blast
    ultimately show False using ne by simp
  qed
  then show ?thesis by blast
qed

lemma fresh_tasks_settle:
  assumes "slidesFromParsed parsedResult = Inr deck"
    and "k < length (tasks (processSlides w evs deck))"
  shows "\<exists>outcome log. tasks (processSlides w evs deck) ! k = Settled outcome log"
proof -
  have t: "tasks (processSlides w evs deck) \<noteq> []" using assms(2) by auto
  then have v: "filter isValid deck \<noteq> []" and d: "dirAvailable w"
    using tasks_none[of deck w evs] by auto
  have kv: "k < length (filter isValid deck)"
    using t assms(2) tasks_length[of w evs deck] by simp
  show ?thesis by (rule tasks_settled[OF v d fresh_numbers_convert[OF assms(1)] kv])
qed

text \<open>
  C5, as amended: in a freshly parsed deck the \<open>slideNumber\<close> of every record is its
  1-based position, whatever the parsed element held, so the file names of the records
  differ pairwise, every image task settles, and no two image tasks write the same file.
  In a deck loaded from the checkpoint the \<open>slideNumber\<close> of a record is the stored value
  when that is truthy, and the 1-based position otherwise. In both cases the number is
  assigned before the tasks are dispatched: every file a task writes is named by the
  number its record has in the deck.
\<close>

theorem slideNumber_assignment:
  "(slidesFromParsed parsedResult = Inr deck \<longrightarrow>
      (\<forall>k<length deck. field (deck ! k) ''slideNumber'' = JNum (showNat (k + 1))) \<and>
      distinct (map (\<lambda>r. imagePath dir (field r ''slideNumber'')) deck) \<and>
      (\<forall>k<length (tasks (processSlides w evs deck)).
         \<exists>outcome log. tasks (processSlides w evs deck) ! k = Settled outcome log) \<and>
      (\<forall>j k. j < k \<and> k < length (tasks (processSlides w evs deck)) \<longrightarrow>
         set (taskWrites (tasks (processSlides w evs deck) ! j)) \<inter>
         set (taskWrites (tasks (processSlides w evs deck) ! k)) = {})) \<and>
   (loadSlides (Inr (JArr ys)) = Inr deck' \<longrightarrow>
      (\<forall>k<length deck'. field (deck' ! k) ''slideNumber'' =
         (if truthy (readProp (ys ! k) ''slideNumber'') then readProp (ys ! k) ''slideNumber''
          else JNum (showNat (k + 1))))) \<and>
   (\<forall>k<length (tasks (processSlides w evs slides)).
      Inr ` set (taskWrites (tasks (processSlides w evs slides) ! k)) \<subseteq>
        {imagePath (scriptDir w) (field (filter isValid slides ! k) ''slideNumber'')})"
proof (intro conjI impI allI)
  assume a: "slidesFromParsed parsedResult = Inr deck"
  show "distinct (map (\<lambda>r. imagePath dir (field r ''slideNumber'')) deck)"
    by (rule fresh_paths_distinct[OF a])
  {
    fix k assume "k < length deck"
    then show "field (deck ! k) ''slideNumber'' = JNum (showNat (k + 1))"
      by (rule fresh_number[OF a])
  }
  {
    fix k assume "k < length (tasks (processSlides w evs deck))"
    then show "\<exists>outcome log. tasks (processSlides w evs deck) ! k = Settled outcome log"
      by (rule fresh_tasks_settle[OF a])
  }
  fix j k
  assume "j < k \<and> k < length (tasks (processSlides w evs deck))"
  then show "set (taskWrites (tasks (processSlides w evs deck) ! j)) \<inter>
         set (taskWrites (tasks (processSlides w evs deck) ! k)) = {}"
    using fresh_tasks_disjoint[OF a] by blast
next
  fix k
  assume l: "loadSlides (Inr (JArr ys)) = Inr deck'" and k: "k < length deck'"
  have "k < length ys" using k loadSlides_success[OF l] by auto
  then show "field (deck' ! k) ''slideNumber'' =
         (if truthy (readProp (ys ! k) ''slideNumber'') then readProp (ys ! k) ''slideNumber''
          else JNum (showNat (k + 1)))"
    by (rule loaded_record(2)[OF l])
next
  fix k assume "k < length (tasks (processSlides w evs slides))"
  then show "Inr ` set (taskWrites (tasks (processSlides w evs slides) ! k)) \<subseteq>
        {imagePath (scriptDir w) (field (filter isValid slides ! k) ''slideNumber'')}"
    by (rule task_writes)
qed

lemma example_tasks:
  "map taskWrites
     (tasks (processSlides
        (bareWorld\<lparr>imagesDirExists := True,
           imageApi := (\<lambda>k j. Responds (Some ''iVBORw0KGgo='')),
           imageWrite := (\<lambda>k j. None)\<rparr>) [] exampleDeck)) =
   [[''/srv/slidegen/images/slide_1_image.png''], [''/srv/slidegen/images/slide_3_image.png'']]"
  by code_simp

lemma example_resume:
  "loadSlides (Inr (JArr (map JObj exampleDeck))) = Inr exampleDeck"
  by (simp add: exampleDeck_def loadSlides_def bindE_def loadedRecord_def validityOf_def
      getProp_def nullish_def field_def showNat_small)

theorem slideNumber_assignment_witness:
  "map (\<lambda>r. field r ''slideNumber'') exampleDeck = [JNum ''1'', JNum ''2'', JNum ''3''] \<and>
   distinct (map (\<lambda>r. imagePath ''/srv/slidegen'' (field r ''slideNumber'')) exampleDeck) \<and>
   set [''/srv/slidegen/images/slide_1_image.png''] \<inter>
     set [''/srv/slidegen/images/slide_3_image.png''] = {} \<and>
   Inr ` set [''/srv/slidegen/images/slide_3_image.png''] \<subseteq>
     {imagePath ''/srv/slidegen'' (JNum ''3'')}"
proof -
  let ?p = "JObj [(''slides'', JObj [(''slide'',
      JArr [JObj [(''title'', JStr ''Tides''), (''text'', JStr ''Two a day''),
                  (''imagedescription'', JStr ''A harbour at dusk'')],
            JObj [(''title'', JStr ''Moon''), (''text'', JStr [])],
            JObj [(''title'', JStr ''Storms''), (''text'', JStr ''Surge''),
                  (''imagedescription'', JStr ''A sea wall'')]])])]"
  let ?w = "bareWorld\<lparr>imagesDirExists := True,
           imageApi := (\<lambda>k j. Responds (Some ''iVBORw0KGgo='')),
           imageWrite := (\<lambda>k j. None)\<rparr>"
  have f: "slidesFromParsed ?p = Inr exampleDeck"
    by (simp add: slidesFromParsed_def slideElements_def bindE_def freshRecord_def
        validityOf_def getProp_def nullish_def field_def exampleDeck_def Let_def showNat_small)
  have n: "length (tasks (processSlides ?w [] exampleDeck)) = 2"
    and t0: "taskWrites (tasks (processSlides ?w [] exampleDeck) ! 0) =
               [''/srv/slidegen/images/slide_1_image.png'']"
    and t1: "taskWrites (tasks (processSlides ?w [] exampleDeck) ! 1) =
               [''/srv/slidegen/images/slide_3_image.png'']"
    using example_tasks[THEN arg_cong, of length] example_tasks[THEN arg_cong, of "\<lambda>l. l ! 0"]
      example_tasks[THEN arg_cong, of "\<lambda>l. l ! 1"]
    by simp_all
  have v: "filter isValid exampleDeck ! 1 = exampleDeck ! 2"
    by (simp add: exampleDeck_def isValid_def field_def)
  have sd: "scriptDir ?w = ''/srv/slidegen''" by (simp add: bareWorld_def)
  note t = slideNumber_assignment[of ?p exampleDeck "''/srv/slidegen''" ?w "[]"
      "map JObj exampleDeck" exampleDeck exampleDeck]
  from t f have a: "\<forall>k<length exampleDeck. field (exampleDeck ! k) ''slideNumber'' = JNum (showNat (k + 1))"
    and b: "distinct (map (\<lambda>r. imagePath ''/srv/slidegen'' (field r ''slideNumber'')) exampleDeck)"
    and c: "\<forall>j k. j < k \<and> k < length (tasks (processSlides ?w [] exampleDeck)) \<longrightarrow>
         set (taskWrites (tasks (processSlides ?w [] exampleDeck) ! j)) \<inter>
         set (taskWrites (tasks (processSlides ?w [] exampleDeck) ! k)) = {}"
    by blast+
  from t have d: "\<forall>k<length (tasks (processSlides ?w [] exampleDeck)).
      Inr ` set (taskWrites (tasks (processSlides ?w [] exampleDeck) ! k)) \<subseteq>
        {imagePath (scriptDir ?w) (field (filter isValid exampleDeck ! k) ''slideNumber'')}"
    by blast
  have l: "length exampleDeck = 3" by (simp add: exampleDeck_def)
  have 1: "map (\<lambda>r. field r ''slideNumber'') exampleDeck = [JNum ''1'', JNum ''2'', JNum ''3'']"
  proof (rule nth_equalityI)
    show "length (map (\<lambda>r. field r ''slideNumber'') exampleDeck) = length [JNum ''1'', JNum ''2'', JNum ''3'']"
      using l by simp
    fix i assume "i < length (map (\<lambda>r. field r ''slideNumber'') exampleDeck)"
    then have i: "i < 3" using l by simp
    then have "i = 0 \<or> i = 1 \<or> i = 2" by arith
    then show "map (\<lambda>r. field r ''slideNumber'') exampleDeck ! i = [JNum ''1'', JNum ''2'', JNum ''3''] ! i"
      using a[rule_format, of i] i l by (auto simp: showNat_small)
  qed
  from c[rule_format, of 0 1] n t0 t1
  have 3: "set [''/srv/slidegen/images/slide_1_image.png''] \<inter>
     set [''/srv/slidegen/images/slide_3_image.png''] = {}"
    by simp
  have "field (exampleDeck ! 2) ''slideNumber'' = JNum ''3''"
    using a[rule_format, of 2] l by (simp add: showNat_small)
  with d[rule_format, of 1] n t1 v sd
  have 4: "Inr ` set [''/srv/slidegen/images/slide_3_image.png''] \<subseteq>
     {imagePath ''/srv/slidegen'' (JNum ''3'')}" by simp
  from 1 b 3 4 show ?thesis by blast
qed

text \<open>
  The claim as stated fails on a checkpoint that stores a slide number: the stored number
  is kept, not the position, and two records can share a number; the two image tasks of
  the run then write the same file.
\<close>

theorem slideNumber_assignment_counterexample:
  "loadSlides (Inr (JArr
      [JObj [(''title'', JStr ''Tides''), (''text'', JStr ''Two a day''),
             (''imagedescription'', JStr ''A harbour at dusk''), (''slideNumber'', JNum ''2'')],
       JObj [(''title'', JStr ''Storms''), (''text'', JStr ''Surge''),
             (''imagedescription'', JStr ''A sea wall'')]])) =
     Inr [[(''title'', JStr ''Tides''), (''text'', JStr ''Two a day''),
           (''imagedescription'', JStr ''A harbour at dusk''), (''slideNumber'', JNum ''2''),
           (''isValid'', JBool True)],
          [(''title'', JStr ''Storms''), (''text'', JStr ''Surge''),
           (''imagedescription'', JStr ''A sea wall''), (''slideNumber'', JNum ''2''),
           (''isValid'', JBool True)]] \<and>
   field [(''title'', JStr ''Tides''), (''text'', JStr ''Two a day''),
          (''imagedescription'', JStr ''A harbour at dusk''), (''slideNumber'', JNum ''2''),
          (''isValid'', JBool True)] ''slideNumber'' \<noteq> JNum ''1'' \<and>
   map taskWrites (tasks (main
     (bareWorld\<lparr>slidesJsonExists := True,
        readSlidesJson := Inr (JArr
          [JObj [(''title'', JStr ''Tides''), (''text'', JStr ''Two a day''),
                 (''imagedescription'', JStr ''A harbour at dusk''),
                 (''slideNumber'', JNum ''2'')],
           JObj [(''title'', JStr ''Storms''), (''text'', JStr ''Surge''),
                 (''imagedescription'', JStr ''A sea wall'')]]),
        imagesDirExists := True,
        imageApi := (\<lambda>k j. Responds (Some ''iVBORw0KGgo='')),
        imageWrite := (\<lambda>k j. None)\<rparr>))) =
     [[''/srv/slidegen/images/slide_2_image.png''], [''/srv/slidegen/images/slide_2_image.png'']]"
proof -
  have 1: "loadSlides (Inr (JArr
      [JObj [(''title'', JStr ''Tides''), (''text'', JStr ''Two a day''),
             (''imagedescription'', JStr ''A harbour at dusk''), (''slideNumber'', JNum ''2'')],
       JObj [(''title'', JStr ''Storms''), (''text'', JStr ''Surge''),
             (''imagedescription'', JStr ''A sea wall'')]])) =
     Inr [[(''title'', JStr ''Tides''), (''text'', JStr ''Two a day''),
           (''imagedescription'', JStr ''A harbour at dusk''), (''slideNumber'', JNum ''2''),
           (''isValid'', JBool True)],
          [(''title'', JStr ''Storms''), (''text'', JStr ''Surge''),
           (''imagedescription'', JStr ''A sea wall''), (''slideNumber'', JNum ''2''),
           (''isValid'', JBool True)]]"
    by (simp add: loadSlides_def bindE_def loadedRecord_def validityOf_def
        getProp_def nullish_def field_def showNat_small)
  have 2: "field [(''title'', JStr ''Tides''), (''text'', JStr ''Two a day''),
          (''imagedescription'', JStr ''A harbour at dusk''), (''slideNumber'', JNum ''2''),
          (''isValid'', JBool True)] ''slideNumber'' \<noteq> JNum ''1''"
    by (simp add: field_def)
  have 3: "map taskWrites (tasks (main
     (bareWorld\<lparr>slidesJsonExists := True,
        readSlidesJson := Inr (JArr
          [JObj [(''title'', JStr ''Tides''), (''text'', JStr ''Two a day''),
                 (''imagedescription'', JStr ''A harbour at dusk''),
                 (''slideNumber'', JNum ''2'')],
           JObj [(''title'', JStr ''Storms''), (''text'', JStr ''Surge''),
                 (''imagedescription'', JStr ''A sea wall'')]]),
        imagesDirExists := True,
        imageApi := (\<lambda>k j. Responds (Some ''iVBORw0KGgo='')),
        imageWrite := (\<lambda>k j. None)\<rparr>))) =
     [[''/srv/slidegen/images/slide_2_image.png''], [''/srv/slidegen/images/slide_2_image.png'']]"
    by code_simp
  show ?thesis by (rule conjI[OF 1 conjI[OF 2 3]])
qed

section \<open>Dispatch and summary\<close>

text \<open>
  C6, as amended: for every deck with at least one valid record in which the slide number
  of every valid record converts to a string, once the images directory exists or has
  been created, main dispatches exactly one image task per valid record, in deck order,
  and none for an invalid record; each task settles with one outcome, which depends only
  on its own slide and its own image calls; the summary reports the number of valid
  slides and the number of successes, and reports the number of failures only when it is
  positive. With no valid record nothing is dispatched and no summary is printed. When
  the slide number of a valid record does not convert, its task rejects, no other task
  settles, no summary is printed and the exit code is 1; this cannot happen in a freshly
  parsed deck, whose slide numbers are positions.
\<close>

theorem processSlides_dispatch:
  "(filter isValid slides \<noteq> [] \<and> dirAvailable w \<and> numbersConvert slides \<longrightarrow>
      length (tasks (processSlides w evs slides)) = length (filter isValid slides) \<and>
      (\<forall>k<length (filter isValid slides).
         tasks (processSlides w evs slides) ! k =
           settled (taskOf w k (filter isValid slides ! k)) \<and>
         (\<exists>outcome log. tasks (processSlides w evs slides) ! k = Settled outcome log)) \<and>
      summary (processSlides w evs slides) =
        (if length (filter succeeded (tasks (processSlides w evs slides)))
              < length (filter isValid slides)
         then [TotalValid (length (filter isValid slides)),
               Generated (length (filter succeeded (tasks (processSlides w evs slides)))),
               FailedCount (length (filter isValid slides) -
                 length (filter succeeded (tasks (processSlides w evs slides))))]
         else [TotalValid (length (filter isValid slides)),
               Generated (length (filter succeeded (tasks (processSlides w evs slides))))])) \<and>
   (filter isValid slides \<noteq> [] \<and> dirAvailable w \<and> dirAvailable w' \<and> numbersConvert slides \<and>
    k < length (filter isValid slides) \<and> scriptDir w' = scriptDir w \<and>
    imageApi w' k = imageApi w k \<and> imageWrite w' k = imageWrite w k \<longrightarrow>
      tasks (processSlides w' evs slides) ! k = tasks (processSlides w evs slides) ! k) \<and>
   (filter isValid slides = [] \<longrightarrow>
      tasks (processSlides w evs slides) = [] \<and> summary (processSlides w evs slides) = []) \<and>
   (filter isValid slides \<noteq> [] \<and> dirAvailable w \<and> \<not> numbersConvert slides \<longrightarrow>
      length (tasks (processSlides w evs slides)) = length (filter isValid slides) \<and>
      (\<forall>k<length (filter isValid slides).
         tasks (processSlides w evs slides) ! k =
           abandoned (taskOf w k (filter isValid slides ! k)) \<and>
         (\<forall>outcome log. tasks (processSlides w evs slides) ! k \<noteq> Settled outcome log)) \<and>
      summary (processSlides w evs slides) = [] \<and>
      exitCode (processSlides w evs slides) = 1) \<and>
   (slidesFromParsed parsedResult = Inr slides \<longrightarrow> numbersConvert slides)"
proof (intro conjI impI allI)
  assume a: "filter isValid slides \<noteq> [] \<and> dirAvailable w \<and> numbersConvert slides"
  then have v: "filter isValid slides \<noteq> []" and d: "dirAvailable w"
    and c: "numbersConvert slides" by simp_all
  show "length (tasks (processSlides w evs slides)) = length (filter isValid slides)"
    by (rule tasks_dispatched(1)[OF v d c])
  show "summary (processSlides w evs slides) =
        (if length (filter succeeded (tasks (processSlides w evs slides)))
              < length (filter isValid slides)
         then [TotalValid (length (filter isValid slides)),
               Generated (length (filter succeeded (tasks (processSlides w evs slides)))),
               FailedCount (length (filter isValid slides) -
                 length (filter succeeded (tasks (processSlides w evs slides))))]
         else [TotalValid (length (filter isValid slides)),
               Generated (length (filter succeeded (tasks (processSlides w evs slides))))])"
    by (rule summary_dispatched[OF v d c])
  {
    fix j assume j: "j < length (filter isValid slides)"
    then show "tasks (processSlides w evs slides) ! j =
        settled (taskOf w j (filter isValid slides ! j))"
      by (rule tasks_dispatched(2)[OF v d c])
    show "\<exists>outcome log. tasks (processSlides w evs slides) ! j = Settled outcome log"
      by (rule tasks_settled[OF v d c j])
  }
next
  assume a: "filter isValid slides \<noteq> [] \<and> dirAvailable w \<and> dirAvailable w' \<and>
    numbersConvert slides \<and> k < length (filter isValid slides) \<and> scriptDir w' = scriptDir w \<and>
    imageApi w' k = imageApi w k \<and> imageWrite w' k = imageWrite w k"
  then have "tasks (processSlides w evs slides) ! k =
      settled (taskOf w k (filter isValid slides ! k))"
    and "tasks (processSlides w' evs slides) ! k =
      settled (taskOf w' k (filter isValid slides ! k))"
    using tasks_dispatched(2)[of slides w k evs] tasks_dispatched(2)[of slides w' k evs]
    by simp_all
  then show "tasks (processSlides w' evs slides) ! k = tasks (processSlides w evs slides) ! k"
    using a by (simp add: taskOf_def)
next
  assume "filter isValid slides = []"
  then show "tasks (processSlides w evs slides) = []"
    and "summary (processSlides w evs slides) = []"
    by (simp_all add: processSlides_unfold)
next
  assume a: "filter isValid slides \<noteq> [] \<and> dirAvailable w \<and> \<not> numbersConvert slides"
  then show "length (tasks (processSlides w evs slides)) = length (filter isValid slides)"
    and "summary (processSlides w evs slides) = []"
    and "exitCode (processSlides w evs slides) = 1"
    by (simp_all add: processSlides_unfold)
  {
    fix j assume j: "j < length (filter isValid slides)"
    then show t: "tasks (processSlides w evs slides) ! j =
        abandoned (taskOf w j (filter isValid slides ! j))"
      using a by (simp add: processSlides_unfold nth_enumerate_eq)
    fix outcome log
    show "tasks (processSlides w evs slides) ! j \<noteq> Settled outcome log"
      unfolding t by (simp add: abandoned_def split: sum.splits)
  }
next
  assume "slidesFromParsed parsedResult = Inr slides"
  then show "numbersConvert slides" by (rule fresh_numbers_convert)
qed

lemma example_valid:
  "filter isValid exampleDeck =
     [[(''title'', JStr ''Tides''), (''text'', JStr ''Two a day''),
       (''imagedescription'', JStr ''A harbour at dusk''),
       (''slideNumber'', JNum ''1''), (''isValid'', JBool True)],
      [(''title'', JStr ''Storms''), (''text'', JStr ''Surge''),
       (''imagedescription'', JStr ''A sea wall''),
       (''slideNumber'', JNum ''3''), (''isValid'', JBool True)]]"
  by (simp add: exampleDeck_def isValid_def field_def)

lemma example_successes:
  "length (filter succeeded
     (tasks (processSlides
        (bareWorld\<lparr>slidesJsonExists := True,
           readSlidesJson := Inr (JArr (map JObj exampleDeck)),
           imagesDirExists := True,
           imageApi := (\<lambda>k j. if k = 0 then Responds (Some ''iVBORw0KGgo='')
                               else Rejects (LibError ''rate limit'')),
           imageWrite := (\<lambda>k j. None)\<rparr>) [] exampleDeck))) = 1"
  by code_simp

text \<open>
  A checkpoint holding the three records of the example deck: the deck loads as it is,
  the first image succeeds and every call for the second fails.
\<close>

theorem processSlides_dispatch_witness:
  "obtainSlides
     (bareWorld\<lparr>slidesJsonExists := True,
        readSlidesJson := Inr (JArr (map JObj exampleDeck)),
        imagesDirExists := True,
        imageApi := (\<lambda>k j. if k = 0 then Responds (Some ''iVBORw0KGgo='')
                            else Rejects (LibError ''rate limit'')),
        imageWrite := (\<lambda>k j. None)\<rparr>) = (Some exampleDeck, []) \<and>
   length (tasks (main
     (bareWorld\<lparr>slidesJsonExists := True,
        readSlidesJson := Inr (JArr (map JObj exampleDeck)),
        imagesDirExists := True,
        imageApi := (\<lambda>k j. if k = 0 then Responds (Some ''iVBORw0KGgo='')
                            else Rejects (LibError ''rate limit'')),
        imageWrite := (\<lambda>k j. None)\<rparr>))) = 2 \<and>
   summary (main
     (bareWorld\<lparr>slidesJsonExists := True,
        readSlidesJson := Inr (JArr (map JObj exampleDeck)),
        imagesDirExists := True,
        imageApi := (\<lambda>k j. if k = 0 then Responds (Some ''iVBORw0KGgo='')
                            else Rejects (LibError ''rate limit'')),
        imageWrite := (\<lambda>k j. None)\<rparr>)) =
     [TotalValid 2, Generated 1, FailedCount 1]"
proof -
  let ?w = "bareWorld\<lparr>slidesJsonExists := True,
        readSlidesJson := Inr (JArr (map JObj exampleDeck)),
        imagesDirExists := True,
        imageApi := (\<lambda>k j. if k = 0 then Responds (Some ''iVBORw0KGgo='')
                            else Rejects (LibError ''rate limit'')),
        imageWrite := (\<lambda>k j. None)\<rparr>"
  have o: "obtainSlides ?w = (Some exampleDeck, [])"
    by (simp add: obtainSlides_def example_resume)
  have m: "main ?w = processSlides ?w [] exampleDeck" by (rule main_obtained[OF o])
  have d: "dirAvailable ?w" by (simp add: dirAvailable_def)
  have v: "filter isValid exampleDeck \<noteq> []" by (simp add: example_valid)
  have n: "length (filter isValid exampleDeck) = 2" by (simp add: example_valid)
  have c: "numbersConvert exampleDeck"
    by (simp add: numbersConvert_def example_valid converts_def field_def)
  from processSlides_dispatch[of exampleDeck ?w "[]" ?w 0 JNull] d v c
  have "length (tasks (processSlides ?w [] exampleDeck)) = length (filter isValid exampleDeck)"
    and "summary (processSlides ?w [] exampleDeck) =
        (if length (filter succeeded (tasks (processSlides ?w [] exampleDeck)))
              < length (filter isValid exampleDeck)
         then [TotalValid (length (filter isValid exampleDeck)),
               Generated (length (filter succeeded (tasks (processSlides ?w [] exampleDeck)))),
               FailedCount (length (filter isValid exampleDeck) -
                 length (filter succeeded (tasks (processSlides ?w [] exampleDeck))))]
         else [TotalValid (length (filter isValid exampleDeck)),
               Generated (length (filter succeeded (tasks (processSlides ?w [] exampleDeck))))])"
    by blast+
  then have "length (tasks (processSlides ?w [] exampleDeck)) = 2"
    and "summary (processSlides ?w [] exampleDeck) = [TotalValid 2, Generated 1, FailedCount 1]"
    unfolding n example_successes by simp_all
  then show ?thesis unfolding m using o by simp
qed

text \<open>
  The claim as stated fails in three runs, each resuming from a checkpoint. A checkpoint
  with no valid record prints no summary at all. A checkpoint whose images all succeed
  prints no failure count. A checkpoint with two valid records, the first of which stores
  the slide number \<^verbatim>\<open>{"toString": 1}\<close>: the first task rejects on line 178, the second,
  whose own slide and calls are in order, never settles, no summary is printed and the
  exit code is 1.
\<close>

theorem processSlides_dispatch_counterexample:
  "summary (main (bareWorld\<lparr>slidesJsonExists := True,
      readSlidesJson := Inr (JArr [JObj [(''title'', JStr ''Moon'')]])\<rparr>)) = [] \<and>
   summary (main (bareWorld\<lparr>slidesJsonExists := True,
      readSlidesJson := Inr (JArr
        [JObj [(''title'', JStr ''Tides''), (''text'', JStr ''Two a day''),
               (''imagedescription'', JStr ''A harbour at dusk'')]]),
      imagesDirExists := True,
      imageApi := (\<lambda>k j. Responds (Some ''iVBORw0KGgo='')),
      imageWrite := (\<lambda>k j. None)\<rparr>)) = [TotalValid 1, Generated 1] \<and>
   main (bareWorld\<lparr>slidesJsonExists := True,
      readSlidesJson := Inr (JArr
        [JObj [(''title'', JStr ''Tides''), (''text'', JStr ''Two a day''),
               (''imagedescription'', JStr ''A harbour at dusk''),
               (''slideNumber'', JObj [(''toString'', JNum ''1'')])],
         JObj [(''title'', JStr ''Storms''), (''text'', JStr ''Surge''),
               (''imagedescription'', JStr ''A sea wall'')]]),
      imagesDirExists := True,
      imageApi := (\<lambda>k j. Responds (Some ''iVBORw0KGgo='')),
      imageWrite := (\<lambda>k j. None)\<rparr>) =
     \<lparr>exitCode = 1, events = [],
      tasks = [Rejected (TypeError ''Cannot convert object to primitive value''), CutShort],
      summary = []\<rparr>"
proof -
  have 1: "summary (main (bareWorld\<lparr>slidesJsonExists := True,
      readSlidesJson := Inr (JArr [JObj [(''title'', JStr ''Moon'')]])\<rparr>)) = []"
    by code_simp
  have 2: "summary (main (bareWorld\<lparr>slidesJsonExists := True,
      readSlidesJson := Inr (JArr
        [JObj [(''title'', JStr ''Tides''), (''text'', JStr ''Two a day''),
               (''imagedescription'', JStr ''A harbour at dusk'')]]),
      imagesDirExists := True,
      imageApi := (\<lambda>k j. Responds (Some ''iVBORw0KGgo='')),
      imageWrite := (\<lambda>k j. None)\<rparr>)) = [TotalValid 1, Generated 1]"
    by code_simp
  have 3: "main (bareWorld\<lparr>slidesJsonExists := True,
      readSlidesJson := Inr (JArr
        [JObj [(''title'', JStr ''Tides''), (''text'', JStr ''Two a day''),
               (''imagedescription'', JStr ''A harbour at dusk''),
               (''slideNumber'', JObj [(''toString'', JNum ''1'')])],
         JObj [(''title'', JStr ''Storms''), (''text'', JStr ''Surge''),
               (''imagedescription'', JStr ''A sea wall'')]]),
      imagesDirExists := True,
      imageApi := (\<lambda>k j. Responds (Some ''iVBORw0KGgo='')),
      imageWrite := (\<lambda>k j. None)\<rparr>) =
     \<lparr>exitCode = 1, events = [],
      tasks = [Rejected (TypeError ''Cannot convert object to primitive value''), CutShort],
      summary = []\<rparr>"
    by code_simp
  show ?thesis by (rule conjI[OF 1 conjI[OF 2 3]])
qed

section \<open>Exit codes\<close>

text \<open>
  C8, as amended: the process exits with code 0 whenever the run completes, whatever the
  outcomes of the image tasks, and also when no valid slide remains (then no image task
  is dispatched). It exits with code 1 when there is no checkpoint and the research file
  is missing, when the checkpoint does not load, when text generation fails, and on an
  uncaught error: a failed creation of the images directory, or a valid record whose
  slide number does not convert to a string, which prints no summary either. A checkpoint
  that is a non-empty array without a null element loads, whatever its elements are, and
  does not by itself end the run with code 1.
\<close>

theorem main_exit_codes:
  "(obtainSlides w = (Some slides, evs) \<and>
    (filter isValid slides = [] \<or> (dirAvailable w \<and> numbersConvert slides)) \<longrightarrow>
      (\<forall>api wr. exitCode (main (w\<lparr>imageApi := api, imageWrite := wr\<rparr>)) = 0)) \<and>
   (obtainSlides w = (Some slides, evs) \<and> filter isValid slides = [] \<longrightarrow>
      exitCode (main w) = 0 \<and> tasks (main w) = []) \<and>
   (\<not> slidesJsonExists w \<and> \<not> researchExists w \<longrightarrow> exitCode (main w) = 1) \<and>
   (slidesJsonExists w \<and> (\<exists>e. loadSlides (readSlidesJson w) = Inl e) \<longrightarrow>
      exitCode (main w) = 1) \<and>
   (\<not> slidesJsonExists w \<and> researchExists w \<and> readResearch w = Inr research \<and>
    (\<exists>e. fst (generateSlidesFromResearch w research) = Inl e) \<longrightarrow> exitCode (main w) = 1) \<and>
   (obtainSlides w = (Some slides, evs) \<and> filter isValid slides \<noteq> [] \<and> \<not> dirAvailable w \<longrightarrow>
      exitCode (main w) = 1) \<and>
   (obtainSlides w = (Some slides, evs) \<and> filter isValid slides \<noteq> [] \<and> dirAvailable w \<and>
    \<not> numbersConvert slides \<longrightarrow>
      (\<forall>api wr. exitCode (main (w\<lparr>imageApi := api, imageWrite := wr\<rparr>)) = 1 \<and>
                summary (main (w\<lparr>imageApi := api, imageWrite := wr\<rparr>)) = [])) \<and>
   (slidesJsonExists w \<and> readSlidesJson w = Inr (JArr ys) \<and> ys \<noteq> [] \<and>
    (\<forall>y\<in>set ys. \<not> nullish y) \<longrightarrow>
      (\<exists>slides. obtainSlides w = (Some slides, []) \<and> length slides = length ys))"
proof (intro conjI impI allI)
  fix api wr
  assume a: "obtainSlides w = (Some slides, evs) \<and>
    (filter isValid slides = [] \<or> (dirAvailable w \<and> numbersConvert slides))"
  let ?w = "w\<lparr>imageApi := api, imageWrite := wr\<rparr>"
  have "obtainSlides ?w = (Some slides, evs)" using a by (simp add: obtainSlides_image_free)
  then have "main ?w = processSlides ?w evs slides" by (rule main_obtained)
  moreover have "dirAvailable ?w = dirAvailable w" by (simp add: dirAvailable_def)
  ultimately show "exitCode (main ?w) = 0" using a by (simp add: exitCode_processSlides)
next
  assume a: "obtainSlides w = (Some slides, evs) \<and> filter isValid slides = []"
  then have m: "main w = processSlides w evs slides" by (simp add: main_obtained)
  show "exitCode (main w) = 0" using a by (simp add: m exitCode_processSlides)
  show "tasks (main w) = []" using a by (simp add: m tasks_none)
next
  assume "\<not> slidesJsonExists w \<and> \<not> researchExists w"
  then have "fst (obtainSlides w) = None" by (simp add: obtainSlides_def)
  then show "exitCode (main w) = 1" by (rule main_not_obtained)
next
  assume "slidesJsonExists w \<and> (\<exists>e. loadSlides (readSlidesJson w) = Inl e)"
  then have "fst (obtainSlides w) = None" by (auto simp: obtainSlides_def)
  then show "exitCode (main w) = 1" by (rule main_not_obtained)
next
  assume a: "\<not> slidesJsonExists w \<and> researchExists w \<and> readResearch w = Inr research \<and>
    (\<exists>e. fst (generateSlidesFromResearch w research) = Inl e)"
  then obtain e evs' where "generateSlidesFromResearch w research = (Inl e, evs')"
    by (cases "generateSlidesFromResearch w research") auto
  then have "fst (obtainSlides w) = None" using a by (simp add: obtainSlides_def)
  then show "exitCode (main w) = 1" by (rule main_not_obtained)
next
  assume a: "obtainSlides w = (Some slides, evs) \<and> filter isValid slides \<noteq> [] \<and> \<not> dirAvailable w"
  then have m: "main w = processSlides w evs slides" by (simp add: main_obtained)
  show "exitCode (main w) = 1" using a by (simp add: m exitCode_processSlides)
next
  fix api wr
  assume a: "obtainSlides w = (Some slides, evs) \<and> filter isValid slides \<noteq> [] \<and> dirAvailable w \<and>
    \<not> numbersConvert slides"
  let ?w = "w\<lparr>imageApi := api, imageWrite := wr\<rparr>"
  have "obtainSlides ?w = (Some slides, evs)" using a by (simp add: obtainSlides_image_free)
  then have m: "main ?w = processSlides ?w evs slides" by (rule main_obtained)
  have d: "dirAvailable ?w" using a by (simp add: dirAvailable_def)
  show "exitCode (main ?w) = 1" and "summary (main ?w) = []"
    unfolding m using a rejected_run(1,2)[OF _ d, of slides evs] by simp_all
next
  assume a: "slidesJsonExists w \<and> readSlidesJson w = Inr (JArr ys) \<and> ys \<noteq> [] \<and>
    (\<forall>y\<in>set ys. \<not> nullish y)"
  then obtain slides where l: "loadSlides (Inr (JArr ys)) = Inr slides"
    using loadSlides_no_null[of ys] by auto
  then have "length slides = length ys" using loadSlides_success[OF l] by auto
  moreover have "obtainSlides w = (Some slides, [])" using a l by (simp add: obtainSlides_def)
  ultimately show "\<exists>slides. obtainSlides w = (Some slides, []) \<and> length slides = length ys"
    by blast
qed

lemma example_obtain:
  "obtainSlides (bareWorld\<lparr>slidesJsonExists := True, readSlidesJson := Inr (JArr [JObj []])\<rparr>) =
     (Some [[(''slideNumber'', JNum ''1''), (''isValid'', JBool False)]], [])"
  by (simp add: obtainSlides_def loadSlides_def bindE_def loadedRecord_def validityOf_def
      getProp_def nullish_def field_def showNat_small)

lemma example_obtain_valid:
  "obtainSlides (bareWorld\<lparr>slidesJsonExists := True,
      readSlidesJson := Inr (JArr [JObj [(''title'', JStr ''Tides''), (''text'', JStr ''Two a day''),
             (''imagedescription'', JStr ''A harbour at dusk'')]])\<rparr>) =
     (Some [[(''title'', JStr ''Tides''), (''text'', JStr ''Two a day''),
             (''imagedescription'', JStr ''A harbour at dusk''),
             (''slideNumber'', JNum ''1''), (''isValid'', JBool True)]], [])"
  by (simp add: obtainSlides_def loadSlides_def bindE_def loadedRecord_def validityOf_def
      getProp_def nullish_def field_def showNat_small)

lemma example_obtain_rejecting:
  "obtainSlides (bareWorld\<lparr>slidesJsonExists := True,
      readSlidesJson := Inr (JArr [JObj [(''title'', JStr ''Tides''), (''text'', JStr ''Two a day''),
             (''imagedescription'', JStr ''A harbour at dusk''),
             (''slideNumber'', JObj [(''toString'', JNum ''1'')])]]),
      imagesDirExists := True\<rparr>) =
     (Some [[(''title'', JStr ''Tides''), (''text'', JStr ''Two a day''),
             (''imagedescription'', JStr ''A harbour at dusk''),
             (''slideNumber'', JObj [(''toString'', JNum ''1'')]), (''isValid'', JBool True)]], [])"
  by (simp add: obtainSlides_def loadSlides_def bindE_def loadedRecord_def validityOf_def
      getProp_def nullish_def field_def showNat_small)

theorem main_exit_codes_witness:
  "exitCode (main (bareWorld\<lparr>slidesJsonExists := True,
      readSlidesJson := Inr (JArr [JObj [(''title'', JStr ''Tides''), (''text'', JStr ''Two a day''),
             (''imagedescription'', JStr ''A harbour at dusk'')]]),
      imagesDirExists := True,
      imageApi := (\<lambda>k j. Rejects (LibError ''rate limit'')),
      imageWrite := (\<lambda>k j. None)\<rparr>)) = 0 \<and>
   exitCode (main (bareWorld\<lparr>slidesJsonExists := True,
      readSlidesJson := Inr (JArr [JObj []])\<rparr>)) = 0 \<and>
   tasks (main (bareWorld\<lparr>slidesJsonExists := True,
      readSlidesJson := Inr (JArr [JObj []])\<rparr>)) = [] \<and>
   exitCode (main bareWorld) = 1 \<and>
   exitCode (main (bareWorld\<lparr>slidesJsonExists := True, readSlidesJson := Inr (JArr [])\<rparr>)) = 1 \<and>
   exitCode (main (bareWorld\<lparr>researchExists := True, readResearch := Inr ''Tides rise''\<rparr>)) = 1 \<and>
   exitCode (main (bareWorld\<lparr>slidesJsonExists := True,
      readSlidesJson := Inr (JArr [JObj [(''title'', JStr ''Tides''), (''text'', JStr ''Two a day''),
             (''imagedescription'', JStr ''A harbour at dusk'')]])\<rparr>)) = 1 \<and>
   exitCode (main (bareWorld\<lparr>slidesJsonExists := True,
      readSlidesJson := Inr (JArr [JObj [(''title'', JStr ''Tides''), (''text'', JStr ''Two a day''),
             (''imagedescription'', JStr ''A harbour at dusk''),
             (''slideNumber'', JObj [(''toString'', JNum ''1'')])]]),
      imagesDirExists := True,
      imageApi := (\<lambda>k j. Responds (Some ''iVBORw0KGgo='')),
      imageWrite := (\<lambda>k j. None)\<rparr>)) = 1 \<and>
   (\<exists>slides. obtainSlides (bareWorld\<lparr>slidesJsonExists := True,
      readSlidesJson := Inr (JArr [JNum ''5'', JStr ''notes''])\<rparr>) = (Some slides, []) \<and>
      length slides = 2)"
proof -
  let ?valid = "[[(''title'', JStr ''Tides''), (''text'', JStr ''Two a day''),
             (''imagedescription'', JStr ''A harbour at dusk''),
             (''slideNumber'', JNum ''1''), (''isValid'', JBool True)]]"
  let ?rejecting = "[[(''title'', JStr ''Tides''), (''text'', JStr ''Two a day''),
             (''imagedescription'', JStr ''A harbour at dusk''),
             (''slideNumber'', JObj [(''toString'', JNum ''1'')]), (''isValid'', JBool True)]]"
  let ?invalid = "[[(''slideNumber'', JNum ''1''), (''isValid'', JBool False)]]"
  let ?w1 = "bareWorld\<lparr>slidesJsonExists := True,
      readSlidesJson := Inr (JArr [JObj [(''title'', JStr ''Tides''), (''text'', JStr ''Two a day''),
             (''imagedescription'', JStr ''A harbour at dusk'')]])\<rparr>"
  let ?w2 = "bareWorld\<lparr>slidesJsonExists := True, readSlidesJson := Inr (JArr [JObj []])\<rparr>"
  let ?w4 = "bareWorld\<lparr>slidesJsonExists := True, readSlidesJson := Inr (JArr [])\<rparr>"
  let ?w5 = "bareWorld\<lparr>researchExists := True, readResearch := Inr ''Tides rise''\<rparr>"
  let ?w7 = "bareWorld\<lparr>slidesJsonExists := True,
      readSlidesJson := Inr (JArr [JObj [(''title'', JStr ''Tides''), (''text'', JStr ''Two a day''),
             (''imagedescription'', JStr ''A harbour at dusk''),
             (''slideNumber'', JObj [(''toString'', JNum ''1'')])]]),
      imagesDirExists := True\<rparr>"
  let ?w8 = "bareWorld\<lparr>slidesJsonExists := True,
      readSlidesJson := Inr (JArr [JNum ''5'', JStr ''notes''])\<rparr>"
  have v: "filter isValid ?valid \<noteq> []" by (simp add: isValid_def field_def)
  have c: "numbersConvert ?valid"
    by (simp add: numbersConvert_def isValid_def converts_def field_def)
  have i: "filter isValid ?invalid = []" by (simp add: isValid_def field_def)
  have o1: "obtainSlides (?w1\<lparr>imagesDirExists := True\<rparr>) = (Some ?valid, [])"
    using example_obtain_valid by (simp add: obtainSlides_def)
  have d1: "dirAvailable (?w1\<lparr>imagesDirExists := True\<rparr>)" by (simp add: dirAvailable_def)
  have n1: "\<not> dirAvailable ?w1" by (simp add: dirAvailable_def bareWorld_def)
  from main_exit_codes[of "?w1\<lparr>imagesDirExists := True\<rparr>" ?valid "[]"] o1 d1 c
  have "\<forall>api wr. exitCode (main (?w1\<lparr>imagesDirExists := True, imageApi := api, imageWrite := wr\<rparr>)) = 0"
    by simp
  then have 1: "exitCode (main (?w1\<lparr>imagesDirExists := True,
      imageApi := (\<lambda>k j. Rejects (LibError ''rate limit'')), imageWrite := (\<lambda>k j. None)\<rparr>)) = 0"
    by blast
  from main_exit_codes[of ?w2 ?invalid "[]"] example_obtain i
  have 2: "exitCode (main ?w2) = 0 \<and> tasks (main ?w2) = []" by simp
  from main_exit_codes[of bareWorld]
  have 3: "exitCode (main bareWorld) = 1" by (simp add: bareWorld_def)
  have "\<exists>e. loadSlides (readSlidesJson ?w4) = Inl e" by (simp add: loadSlides_def bindE_def)
  with main_exit_codes[of ?w4]
  have 4: "exitCode (main ?w4) = 1" by simp
  have "\<exists>e. fst (generateSlidesFromResearch ?w5 ''Tides rise'') = Inl e"
    by (simp add: generateSlidesFromResearch_def bareWorld_def)
  with main_exit_codes[of ?w5 _ _ "''Tides rise''"]
  have 5: "exitCode (main ?w5) = 1" by (simp add: bareWorld_def)
  from main_exit_codes[of ?w1 ?valid "[]"] example_obtain_valid v n1
  have 6: "exitCode (main ?w1) = 1" by simp
  have v7: "filter isValid ?rejecting \<noteq> []" by (simp add: isValid_def field_def)
  have c7: "\<not> numbersConvert ?rejecting"
    by (simp add: numbersConvert_def isValid_def converts_def field_def)
  have d7: "dirAvailable ?w7" by (simp add: dirAvailable_def)
  from main_exit_codes[of ?w7 ?rejecting "[]"] example_obtain_rejecting v7 c7 d7
  have "\<forall>api wr. exitCode (main (?w7\<lparr>imageApi := api, imageWrite := wr\<rparr>)) = 1 \<and>
                summary (main (?w7\<lparr>imageApi := api, imageWrite := wr\<rparr>)) = []"
    by simp
  then have 7: "exitCode (main (?w7\<lparr>imageApi := (\<lambda>k j. Responds (Some ''iVBORw0KGgo='')),
      imageWrite := (\<lambda>k j. None)\<rparr>)) = 1"
    by blast
  from main_exit_codes[of ?w8 "[]" "[]" "[]" "[JNum ''5'', JStr ''notes'']"]
  have 8: "\<exists>slides. obtainSlides ?w8 = (Some slides, []) \<and> length slides = 2"
    by (simp add: nullish_def numeral_2_eq_2)
  from 1 2 3 4 5 6 7 8 show ?thesis by simp
qed

text \<open>
  The claim as stated fails on a checkpoint that is corrupt and yet loads: the array
  \<^verbatim>\<open>[5, "notes"]\<close> holds no slide record at all, the run finds no valid slide and ends
  with exit code 0.
\<close>

theorem main_exit_codes_counterexample:
  "\<not> isObject (JNum ''5'') \<and> \<not> isObject (JStr ''notes'') \<and>
   exitCode (main (bareWorld\<lparr>slidesJsonExists := True,
        readSlidesJson := Inr (JArr [JNum ''5'', JStr ''notes''])\<rparr>)) = 0"
proof -
  have "exitCode (main (bareWorld\<lparr>slidesJsonExists := True,
        readSlidesJson := Inr (JArr [JNum ''5'', JStr ''notes''])\<rparr>)) = 0"
    by code_simp
  then show ?thesis by (simp add: isObject_def)
qed

end
